theory Spec2Isabelle
  imports Main "HOL-Library.Word" "HOL-Library.AList"
begin

unbundle bit_operations_syntax

section \<open>Errors and basic types\<close>

text \<open>
  The named error kinds of \<^verbatim>\<open>errors.ts\<close>, together with the built-in JavaScript errors
  the sources throw (\<^verbatim>\<open>RangeError\<close>, \<^verbatim>\<open>TypeError\<close>, plain \<^verbatim>\<open>Error\<close>).
  A function that can throw returns \<open>error + 'a\<close>, with \<open>Inl\<close> for the thrown error.
\<close>

datatype error =
    SpecError
  | EntityNotFoundError
  | WorldStateError
  | ComponentNotFoundError
  | NoComponentsFoundError
  | NotRegisteredError
  | RangeError
  | TypeError
  | Error

text \<open>\<^verbatim>\<open>export type Entity = number\<close>; the managers index arrays with it, so it is a
  natural number here. Only the proxy's cursor setter tests for negative values, and takes an
  \<open>int\<close>.\<close>

type_synonym Entity = nat

section \<open>BooleanArray\<close>

text \<open>
  Modelled from the spec: the class \<^verbatim>\<open>BooleanArray\<close> (package
  \<^verbatim>\<open>@phughesmcr/booleanarray\<close>) is imported by every manager but its source is not part
  of the repository sources at hand. The spec (section 4.1) describes it as a fixed-size bit
  array over \<open>size\<close> bits packed into 32-bit words, with \<open>get\<close>, \<open>set\<close>, \<open>clear\<close>,
  a population count, the ascending enumeration of the set indices, and direct access to the
  backing words (\<^verbatim>\<open>buffer\<close>, a \<^verbatim>\<open>Uint32Array\<close>). Access out of range is left undefined
  by the spec; here a read out of range is \<open>False\<close> and a write out of range changes nothing,
  and every theorem that depends on a bit being stored states that the index is in range.
\<close>

record BooleanArray =
  ba_size :: nat
  ba_buffer :: "32 word list"

definition BooleanArray_new :: "nat \<Rightarrow> BooleanArray" where
  "BooleanArray_new n = \<lparr>ba_size = n, ba_buffer = replicate ((n + 31) div 32) 0\<rparr>"

definition ba_in_range :: "BooleanArray \<Rightarrow> nat \<Rightarrow> bool" where
  "ba_in_range b i = (i < ba_size b \<and> i div 32 < length (ba_buffer b))"

definition ba_get :: "BooleanArray \<Rightarrow> nat \<Rightarrow> bool" where
  "ba_get b i = (ba_in_range b i \<and> bit (ba_buffer b ! (i div 32)) (i mod 32))"

definition ba_set :: "BooleanArray \<Rightarrow> nat \<Rightarrow> bool \<Rightarrow> BooleanArray" where
  "ba_set b i v =
     (if ba_in_range b i
      then b\<lparr>ba_buffer := (ba_buffer b)[i div 32 :=
             (if v then set_bit (i mod 32) (ba_buffer b ! (i div 32))
              else unset_bit (i mod 32) (ba_buffer b ! (i div 32)))]\<rparr>
      else b)"

definition ba_clear :: "BooleanArray \<Rightarrow> BooleanArray" where
  "ba_clear b = b\<lparr>ba_buffer := map (\<lambda>_. 0) (ba_buffer b)\<rparr>"

text \<open>The number of words, \<^verbatim>\<open>target.length\<close> in \<^verbatim>\<open>isQueryMatch\<close>.\<close>

definition ba_length :: "BooleanArray \<Rightarrow> nat" where
  "ba_length b = length (ba_buffer b)"

definition popcount32 :: "32 word \<Rightarrow> nat" where
  "popcount32 w = length (filter (bit w) [0..<32])"

definition getTruthyCount :: "BooleanArray \<Rightarrow> nat" where
  "getTruthyCount b = sum_list (map popcount32 (ba_buffer b))"

definition truthyIndices :: "BooleanArray \<Rightarrow> nat list" where
  "truthyIndices b = filter (ba_get b) [0..<ba_size b]"

text \<open>\<^verbatim>\<open>BooleanArray.fromObjects(size, key, objects)\<close>: the spec's \<open>from_ids\<close>.\<close>

definition ba_fromIds :: "nat \<Rightarrow> nat list \<Rightarrow> BooleanArray" where
  "ba_fromIds n ids = fold (\<lambda>i b. ba_set b i True) ids (BooleanArray_new n)"

text \<open>An array of the shape the constructor builds: as many words as \<open>size\<close> bits need.\<close>

definition ba_wf :: "nat \<Rightarrow> BooleanArray \<Rightarrow> bool" where
  "ba_wf n b = (ba_size b = n \<and> length (ba_buffer b) = (n + 31) div 32)"

section \<open>Typed arrays and partitions\<close>

text \<open>
  A component's storage is one JavaScript typed array per schema field
  (\<^verbatim>\<open>storage.partitions[key] as TypedArray\<close>). A typed array converts every number stored
  into it to its element type: the integer kinds wrap around modulo \<open>2 ^ w\<close>. Numbers are
  integers here; the two floating-point kinds (\<^verbatim>\<open>Float32Array\<close>, \<^verbatim>\<open>Float64Array\<close>) and
  non-integral numbers are outside this model. A write out of range is ignored and a read out
  of range is \<^verbatim>\<open>undefined\<close> (\<open>None\<close>), as JavaScript defines for typed arrays.
\<close>

datatype TypedArrayKind = Int8Array | Uint8Array | Int16Array | Uint16Array | Int32Array | Uint32Array

fun ta_bits :: "TypedArrayKind \<Rightarrow> nat" where
  "ta_bits Int8Array = 8"
| "ta_bits Uint8Array = 8"
| "ta_bits Int16Array = 16"
| "ta_bits Uint16Array = 16"
| "ta_bits Int32Array = 32"
| "ta_bits Uint32Array = 32"

fun ta_signed :: "TypedArrayKind \<Rightarrow> bool" where
  "ta_signed Int8Array = True"
| "ta_signed Int16Array = True"
| "ta_signed Int32Array = True"
| "ta_signed _ = False"

definition ta_convert :: "TypedArrayKind \<Rightarrow> int \<Rightarrow> int" where
  "ta_convert k v =
     (if ta_signed k
      then (v + 2 ^ (ta_bits k - 1)) mod 2 ^ ta_bits k - 2 ^ (ta_bits k - 1)
      else v mod 2 ^ ta_bits k)"


record TypedArray =
  ta_kind :: TypedArrayKind
  ta_elems :: "int list"

definition TypedArray_new :: "TypedArrayKind \<Rightarrow> nat \<Rightarrow> TypedArray" where
  "TypedArray_new k n = \<lparr>ta_kind = k, ta_elems = replicate n 0\<rparr>"

definition ta_get :: "TypedArray \<Rightarrow> nat \<Rightarrow> int option" where
  "ta_get a i = (if i < length (ta_elems a) then Some (ta_elems a ! i) else None)"

definition ta_set :: "TypedArray \<Rightarrow> nat \<Rightarrow> int \<Rightarrow> TypedArray" where
  "ta_set a i v =
     (if i < length (ta_elems a)
      then a\<lparr>ta_elems := (ta_elems a)[i := ta_convert (ta_kind a) v]\<rparr>
      else a)"

text \<open>\<^verbatim>\<open>PartitionStorage.partitions\<close>: the typed views of one component, by field name.\<close>

type_synonym PartitionStorage = "(string \<times> TypedArray) list"

section \<open>Components\<close>

text \<open>
  A component descriptor: its name (unique within a world), and its schema, \<open>None\<close> for a tag.
  The descriptor's name stands for the identity of the JavaScript object.
\<close>

record Component =
  c_name :: string
  c_schema :: "(string \<times> TypedArrayKind) list option"
  c_maxEntities :: "nat option"

text \<open>The managers take \<^verbatim>\<open>Component<T> | string\<close>.\<close>

datatype ComponentArg = ByName string | ByRef Component

text \<open>
  \<^verbatim>\<open>ComponentInstance\<close>: \<open>ci_storage\<close> is the reference to the instance's partition in the
  manager's buffer (the partition's name), \<open>None\<close> for a tag (\<^verbatim>\<open>storage === null\<close>).
\<close>

record ComponentInstance =
  ci_id :: nat
  ci_type :: Component
  ci_storage :: "string option"

definition ci_name :: "ComponentInstance \<Rightarrow> string" where
  "ci_name i = c_name (ci_type i)"

section \<open>Queries\<close>

text \<open>An archetype is referred to by its id, the words of its component mask
  (\<^verbatim>\<open>bitfield.buffer.toString()\<close>); a query instance by the words of its three masks.\<close>

type_synonym ArchetypeId = "32 word list"
type_synonym QueryId = "32 word list \<times> 32 word list \<times> 32 word list"

text \<open>A \<^verbatim>\<open>Query\<close> object, after its constructor has removed duplicates. The maps of the
  query manager are keyed by the object, so it carries its identity \<open>q_uid\<close>.\<close>

record Query =
  q_uid :: nat
  q_all :: "Component list"
  q_any :: "Component list"
  q_none :: "Component list"

record QueryInstance =
  qi_and :: BooleanArray
  qi_or :: BooleanArray
  qi_not :: BooleanArray
  qi_archetypes :: "ArchetypeId list"
  qi_components :: "(string \<times> ComponentInstance) list"
  qi_isDirty :: bool
  qi_id :: QueryId

text \<open>\<^verbatim>\<open>buffer[i] ?? 0\<close>\<close>

definition word_at :: "32 word list \<Rightarrow> nat \<Rightarrow> 32 word" where
  "word_at ws i = (if i < length ws then ws ! i else 0)"

text \<open>
  JavaScript's \<^verbatim>\<open>&\<close> converts both operands to signed 32-bit integers and yields a signed
  32-bit integer, while an element read from a \<^verbatim>\<open>Uint32Array\<close> is a non-negative number.
\<close>

definition js_band :: "32 word \<Rightarrow> 32 word \<Rightarrow> int" where
  "js_band a b = sint (a AND b)"

definition js_number :: "32 word \<Rightarrow> int" where
  "js_number a = uint a"

text \<open>The three loops of \<^verbatim>\<open>isQueryMatch\<close>, over the word indices \<open>0 ..< target.length\<close>.\<close>

fun check_and :: "32 word list \<Rightarrow> 32 word list \<Rightarrow> nat list \<Rightarrow> bool" where
  "check_and tb ab [] = True"
| "check_and tb ab (i # is) =
     (if js_band (word_at tb i) (word_at ab i) \<noteq> js_number (word_at ab i) then False
      else check_and tb ab is)"

fun check_not :: "32 word list \<Rightarrow> 32 word list \<Rightarrow> nat list \<Rightarrow> bool" where
  "check_not tb nb [] = True"
| "check_not tb nb (i # is) =
     (if js_band (word_at tb i) (word_at nb i) \<noteq> 0 then False
      else check_not tb nb is)"

fun check_or :: "32 word list \<Rightarrow> 32 word list \<Rightarrow> nat list \<Rightarrow> bool" where
  "check_or tb ob [] = False"
| "check_or tb ob (i # is) =
     (if js_band (word_at tb i) (word_at ob i) \<noteq> 0 then True
      else check_or tb ob is)"

definition isQueryMatch :: "BooleanArray \<Rightarrow> QueryInstance \<Rightarrow> bool" where
  "isQueryMatch target query =
     (if getTruthyCount target = 0 then False
      else if \<not> check_and (ba_buffer target) (ba_buffer (qi_and query)) [0..<ba_length target]
        then False
      else if \<not> check_not (ba_buffer target) (ba_buffer (qi_not query)) [0..<ba_length target]
        then False
      else if getTruthyCount (qi_or query) > 0
        then (if \<not> check_or (ba_buffer target) (ba_buffer (qi_or query)) [0..<ba_length target]
              then False else True)
      else True)"

text \<open>
  The candidacy predicate in the words of the spec (section 8): the match holds iff
  \<open>(t & q.and) == q.and\<close>, \<open>(t & q.not) == 0\<close> and \<open>q.or == 0\<close> or \<open>(t & q.or) \<noteq> 0\<close>,
  the bitwise operations taken word by word on the masks.
\<close>

definition mask_and :: "32 word list \<Rightarrow> 32 word list \<Rightarrow> 32 word list" where
  "mask_and xs ys = map2 (AND) xs ys"

definition mask_zero :: "32 word list \<Rightarrow> bool" where
  "mask_zero xs = list_all (\<lambda>w. w = 0) xs"

definition spec_is_match :: "BooleanArray \<Rightarrow> QueryInstance \<Rightarrow> bool" where
  "spec_is_match t q =
     (mask_and (ba_buffer t) (ba_buffer (qi_and q)) = ba_buffer (qi_and q)
      \<and> mask_zero (mask_and (ba_buffer t) (ba_buffer (qi_not q)))
      \<and> (mask_zero (ba_buffer (qi_or q))
          \<or> \<not> mask_zero (mask_and (ba_buffer t) (ba_buffer (qi_or q)))))"

text \<open>The masks of a query instance and of its targets all have the world's component count
  as their size, hence the same number of words.\<close>

definition masks_aligned :: "BooleanArray \<Rightarrow> QueryInstance \<Rightarrow> bool" where
  "masks_aligned t q =
     (length (ba_buffer (qi_and q)) = length (ba_buffer t)
      \<and> length (ba_buffer (qi_or q)) = length (ba_buffer t)
      \<and> length (ba_buffer (qi_not q)) = length (ba_buffer t))"

text \<open>No word has bit 31 set both in the target and in the query's \<open>and\<close> mask.\<close>

definition no_sign_overlap :: "BooleanArray \<Rightarrow> QueryInstance \<Rightarrow> bool" where
  "no_sign_overlap t q =
     list_all (\<lambda>(x, a). \<not> bit (x AND a) 31) (zip (ba_buffer t) (ba_buffer (qi_and q)))"

text \<open>Concrete masks over one word: a world with the single component of id 0, the root
  archetype (no component), the archetype holding the component, the queries
  \<^verbatim>\<open>{ none: [A] }\<close> and \<^verbatim>\<open>{ all: [A] }\<close>; and a query requiring the component of id 31.\<close>

definition ex_mask :: "32 word \<Rightarrow> BooleanArray" where
  "ex_mask w = \<lparr>ba_size = 32, ba_buffer = [w]\<rparr>"

definition ex_query :: "32 word \<Rightarrow> 32 word \<Rightarrow> 32 word \<Rightarrow> QueryInstance" where
  "ex_query a orw n =
     \<lparr>qi_and = ex_mask a, qi_or = ex_mask orw, qi_not = ex_mask n, qi_archetypes = [],
      qi_components = [], qi_isDirty = True, qi_id = ([a], [orw], [n])\<rparr>"

section \<open>Archetype\<close>

text \<open>
  \<^verbatim>\<open>class Archetype\<close>. The candidate cache is keyed by the query instance, referred to by
  its id.
\<close>

record Archetype =
  a_candidateCache :: "(QueryId \<times> bool) list"
  a_entered :: BooleanArray
  a_entities :: BooleanArray
  a_exited :: BooleanArray
  a_entityCapacity :: nat
  a_bitfield :: BooleanArray
  a_components :: "ComponentInstance list"
  a_id :: ArchetypeId

definition Archetype_new ::
  "nat \<Rightarrow> ComponentInstance list \<Rightarrow> BooleanArray option \<Rightarrow> Archetype" where
  "Archetype_new capacity components bitfield =
     (let bf = (case bitfield of
                  Some b \<Rightarrow> b
                | None \<Rightarrow>
                    if length components > 0
                    then ba_fromIds (length components) (map ci_id components)
                    else BooleanArray_new capacity)
      in \<lparr>a_candidateCache = [],
          a_entered = BooleanArray_new capacity,
          a_entities = BooleanArray_new capacity,
          a_exited = BooleanArray_new capacity,
          a_entityCapacity = capacity,
          a_bitfield = bf,
          a_components = components,
          a_id = ba_buffer bf\<rparr>)"

definition addEntity :: "Archetype \<Rightarrow> Entity \<Rightarrow> Archetype" where
  "addEntity a entity =
     (if ba_get (a_entities a) entity then a
      else a\<lparr>a_entities := ba_set (a_entities a) entity True,
             a_entered := ba_set (a_entered a) entity True\<rparr>)"

definition removeEntity :: "Archetype \<Rightarrow> Entity \<Rightarrow> Archetype" where
  "removeEntity a entity =
     (if \<not> ba_get (a_entities a) entity then a
      else a\<lparr>a_entered := ba_set (a_entered a) entity False,
             a_entities := ba_set (a_entities a) entity False,
             a_exited := ba_set (a_exited a) entity True\<rparr>)"

definition getPopulationCount :: "Archetype \<Rightarrow> nat" where
  "getPopulationCount a = getTruthyCount (a_entities a)"

definition getEntered :: "Archetype \<Rightarrow> Entity list" where
  "getEntered a = truthyIndices (a_entered a)"

definition getEntities :: "Archetype \<Rightarrow> Entity list" where
  "getEntities a = truthyIndices (a_entities a)"

definition getExited :: "Archetype \<Rightarrow> Entity list" where
  "getExited a = truthyIndices (a_exited a)"

definition isCandidate :: "Archetype \<Rightarrow> QueryInstance \<Rightarrow> bool \<times> Archetype" where
  "isCandidate a query =
     (case map_of (a_candidateCache a) (qi_id query) of
        Some cached \<Rightarrow> (cached, a)
      | None \<Rightarrow>
          (let result = isQueryMatch (a_bitfield a) query
           in (result, a\<lparr>a_candidateCache :=
                           AList.update (qi_id query) result (a_candidateCache a)\<rparr>)))"

definition isDirty :: "Archetype \<Rightarrow> bool" where
  "isDirty a = (getTruthyCount (a_entered a) > 0 \<or> getTruthyCount (a_exited a) > 0)"

definition isEmpty :: "Archetype \<Rightarrow> bool" where
  "isEmpty a = (getTruthyCount (a_entities a) = 0)"

definition Archetype_refresh :: "Archetype \<Rightarrow> Archetype" where
  "Archetype_refresh a =
     a\<lparr>a_entered := ba_clear (a_entered a), a_exited := ba_clear (a_exited a)\<rparr>"

section \<open>StorageProxy\<close>

text \<open>
  \<^verbatim>\<open>class StorageProxy\<close>: the cursor \<^verbatim>\<open>#entity\<close> and \<^verbatim>\<open>#capacity\<close>. The accessors the
  constructor installs close over the component's partitions and its \<^verbatim>\<open>changed\<close> array,
  which the component manager owns; here they are passed in and returned.
  The cursor setter throws before it assigns, so it returns the error (if any) together with
  the proxy as it is after the statement.
\<close>

record StorageProxy =
  sp_entity :: nat
  sp_capacity :: nat

definition StorageProxy_new :: "nat \<Rightarrow> StorageProxy" where
  "StorageProxy_new capacity = \<lparr>sp_entity = 0, sp_capacity = capacity\<rparr>"

definition sp_get_entity :: "StorageProxy \<Rightarrow> nat" where
  "sp_get_entity p = sp_entity p"

definition sp_set_entity :: "StorageProxy \<Rightarrow> int \<Rightarrow> error option \<times> StorageProxy" where
  "sp_set_entity p v =
     (if v < 0 \<or> v \<ge> int (sp_capacity p) then (Some EntityNotFoundError, p)
      else (None, p\<lparr>sp_entity := nat v\<rparr>))"

text \<open>The getter of field \<open>key\<close>; \<open>None\<close> is \<^verbatim>\<open>undefined\<close>.\<close>

definition sp_read :: "StorageProxy \<Rightarrow> PartitionStorage \<Rightarrow> string \<Rightarrow> int option" where
  "sp_read p storage key =
     (case map_of storage key of
        None \<Rightarrow> None
      | Some store \<Rightarrow> ta_get store (sp_entity p))"

text \<open>The setter of field \<open>key\<close>.\<close>

definition sp_write ::
  "StorageProxy \<Rightarrow> string \<Rightarrow> int \<Rightarrow> PartitionStorage \<times> BooleanArray
     \<Rightarrow> PartitionStorage \<times> BooleanArray" where
  "sp_write p key v sc =
     (case map_of (fst sc) key of
        None \<Rightarrow> sc
      | Some store \<Rightarrow>
          if ta_get store (sp_entity p) \<noteq> Some v
          then (AList.update key (ta_set store (sp_entity p) v) (fst sc),
                ba_set (snd sc) (sp_entity p) True)
          else sc)"

section \<open>ComponentManager\<close>

text \<open>
  A method that can throw after it has changed its object returns the error (if any) together
  with the object as the statement leaves it, so that the state after an exception is part
  of the model.

  \<^verbatim>\<open>class ComponentManager\<close>. Its JavaScript maps keep their insertion order; they are
  association lists here, read with \<open>map_of\<close> and written with \<open>AList.update\<close>, which keeps
  the position of a key that is already present, as \<^verbatim>\<open>Map.set\<close> does.
  \<open>cm_buffer\<close> holds the partitions of the \<^verbatim>\<open>PartitionedBuffer\<close> by component name, and
  \<open>cm_proxies\<close> the proxy of every component that has storage.
\<close>

record ComponentManager =
  cm_buffer :: "(string \<times> PartitionStorage) list"
  cm_changed :: "(Component \<times> BooleanArray) list"
  cm_owners :: "(Component \<times> BooleanArray) list"
  cm_registry :: "(Component \<times> ComponentInstance) list"
  cm_registryByName :: "(string \<times> ComponentInstance) list"
  cm_proxies :: "(string \<times> StorageProxy) list"

text \<open>
  Modelled from the spec: \<^verbatim>\<open>PartitionedBuffer.addPartition\<close> (package
  \<^verbatim>\<open>@phughesmcr/partitionedbuffer\<close>) is not among the sources. By section 4.2 of the spec a
  partition holds, for each schema field, a typed view over \<open>capacity\<close> elements; a tag has no
  partition.
\<close>

definition addPartition :: "nat \<Rightarrow> Component \<Rightarrow> PartitionStorage option" where
  "addPartition capacity component =
     map_option (map (\<lambda>(field, kind). (field, TypedArray_new kind capacity)))
       (c_schema component)"

text \<open>The body of the constructor's loop, for one component.\<close>

definition cm_register :: "nat \<Rightarrow> Component \<Rightarrow> ComponentManager \<Rightarrow> ComponentManager" where
  "cm_register capacity component cm =
     (let instanceOwners = BooleanArray_new capacity;
          instanceChanged = BooleanArray_new capacity;
          storage = addPartition capacity component;
          instance = \<lparr>ci_id = length (cm_registry cm), ci_type = component,
                      ci_storage = map_option (\<lambda>_. c_name component) storage\<rparr>
      in cm\<lparr>cm_owners := AList.update component instanceOwners (cm_owners cm),
             cm_changed := AList.update component instanceChanged (cm_changed cm),
             cm_buffer := (case storage of
                             None \<Rightarrow> cm_buffer cm
                           | Some s \<Rightarrow> AList.update (c_name component) s (cm_buffer cm)),
             cm_proxies := (case storage of
                              None \<Rightarrow> cm_proxies cm
                            | Some s \<Rightarrow> AList.update (c_name component)
                                          (StorageProxy_new capacity) (cm_proxies cm)),
             cm_registry := AList.update component instance (cm_registry cm),
             cm_registryByName :=
               AList.update (c_name component) instance (cm_registryByName cm)\<rparr>)"

definition ComponentManager_new :: "nat \<Rightarrow> Component list \<Rightarrow> ComponentManager" where
  "ComponentManager_new capacity components =
     fold (cm_register capacity) components
       \<lparr>cm_buffer = [], cm_changed = [], cm_owners = [], cm_registry = [],
        cm_registryByName = [], cm_proxies = []\<rparr>"

definition cm_count :: "ComponentManager \<Rightarrow> nat" where
  "cm_count cm = length (cm_registry cm)"

definition getInstance :: "ComponentManager \<Rightarrow> ComponentArg \<Rightarrow> ComponentInstance option" where
  "getInstance cm component =
     (case component of
        ByName n \<Rightarrow> map_of (cm_registryByName cm) n
      | ByRef c \<Rightarrow> map_of (cm_registry cm) c)"

definition getInstances :: "ComponentManager \<Rightarrow> Component list \<Rightarrow> ComponentInstance option list" where
  "getInstances cm array = map (\<lambda>c. getInstance cm (ByRef c)) array"

definition isRegistered :: "ComponentManager \<Rightarrow> ComponentArg \<Rightarrow> bool" where
  "isRegistered cm component = (getInstance cm component \<noteq> None)"

text \<open>\<^verbatim>\<open>instance.storage?.partitions\<close>\<close>

definition cm_storage :: "ComponentManager \<Rightarrow> ComponentInstance \<Rightarrow> PartitionStorage option" where
  "cm_storage cm instance =
     (case ci_storage instance of
        None \<Rightarrow> None
      | Some key \<Rightarrow> map_of (cm_buffer cm) key)"

text \<open>\<^verbatim>\<open>#getEntityComponentsDirect\<close>: the instances whose owner bit is set, in registry
  order.\<close>

definition getEntityComponentsDirect :: "ComponentManager \<Rightarrow> Entity \<Rightarrow> ComponentInstance list" where
  "getEntityComponentsDirect cm entity =
     map snd (filter (\<lambda>(proto, instance).
        (case map_of (cm_owners cm) proto of
           None \<Rightarrow> False
         | Some owners \<Rightarrow> ba_get owners entity)) (cm_registry cm))"

text \<open>\<^verbatim>\<open>for (const key in data) if (key in storage) storage[key][entity] = data[key]\<close>\<close>

definition write_fields :: "(string \<times> int) list \<Rightarrow> Entity \<Rightarrow> PartitionStorage \<Rightarrow> PartitionStorage" where
  "write_fields data entity storage =
     fold (\<lambda>(key, v) st.
        (case map_of st key of
           None \<Rightarrow> st
         | Some store \<Rightarrow> AList.update key (ta_set store entity v) st)) data storage"

definition addToEntity ::
  "ComponentManager \<Rightarrow> ComponentArg \<Rightarrow> Entity \<Rightarrow> (string \<times> int) list option
     \<Rightarrow> (error + ComponentInstance list) \<times> ComponentManager" where
  "addToEntity cm component entity data =
     (case getInstance cm component of
        None \<Rightarrow> (Inl NotRegisteredError, cm)
      | Some instance \<Rightarrow>
          (case map_of (cm_owners cm) (ci_type instance) of
             None \<Rightarrow> (Inl Error, cm)
           | Some owners \<Rightarrow>
               (let cm1 = cm\<lparr>cm_owners :=
                              AList.update (ci_type instance) (ba_set owners entity True)
                                (cm_owners cm)\<rparr>
                in (case map_of (cm_changed cm1) (ci_type instance) of
                      None \<Rightarrow> (Inl Error, cm1)
                    | Some changed \<Rightarrow>
                        (let cm2 = cm1\<lparr>cm_changed :=
                                       AList.update (ci_type instance) (ba_set changed entity True)
                                         (cm_changed cm1)\<rparr>;
                             cm3 = (case (data, ci_storage instance, cm_storage cm2 instance) of
                                      (Some d, Some key, Some storage) \<Rightarrow>
                                        cm2\<lparr>cm_buffer :=
                                              AList.update key (write_fields d entity storage)
                                                (cm_buffer cm2)\<rparr>
                                    | _ \<Rightarrow> cm2)
                         in (Inr (getEntityComponentsDirect cm3 entity), cm3))))))"

definition entityHas :: "ComponentManager \<Rightarrow> ComponentArg \<Rightarrow> Entity \<Rightarrow> bool" where
  "entityHas cm component entity =
     (let proto = (case component of
                     ByName n \<Rightarrow> map_option ci_type (getInstance cm (ByName n))
                   | ByRef c \<Rightarrow> Some c)
      in (case proto of
            None \<Rightarrow> False
          | Some p \<Rightarrow>
              (case map_of (cm_owners cm) p of
                 None \<Rightarrow> False
               | Some owners \<Rightarrow> ba_get owners entity)))"

definition getChanged :: "ComponentManager \<Rightarrow> ComponentArg \<Rightarrow> Entity list option" where
  "getChanged cm component =
     (case getInstance cm component of
        None \<Rightarrow> None
      | Some instance \<Rightarrow> map_option truthyIndices (map_of (cm_changed cm) (ci_type instance)))"

definition getOwners :: "ComponentManager \<Rightarrow> ComponentArg \<Rightarrow> Entity list option" where
  "getOwners cm component =
     (case getInstance cm component of
        None \<Rightarrow> None
      | Some instance \<Rightarrow> map_option truthyIndices (map_of (cm_owners cm) (ci_type instance)))"

definition ComponentManager_refresh :: "ComponentManager \<Rightarrow> ComponentManager" where
  "ComponentManager_refresh cm = cm\<lparr>cm_changed := map (\<lambda>(c, changed). (c, ba_clear changed)) (cm_changed cm)\<rparr>"

definition removeFromEntity ::
  "ComponentManager \<Rightarrow> ComponentArg \<Rightarrow> Entity \<Rightarrow> ComponentInstance list \<times> ComponentManager" where
  "removeFromEntity cm component entity =
     (case getInstance cm component of
        None \<Rightarrow> (getEntityComponentsDirect cm entity, cm)
      | Some instance \<Rightarrow>
          (let cm1 = (case map_of (cm_owners cm) (ci_type instance) of
                        None \<Rightarrow> cm
                      | Some owners \<Rightarrow>
                          cm\<lparr>cm_owners :=
                               AList.update (ci_type instance) (ba_set owners entity False)
                                 (cm_owners cm)\<rparr>);
               cm2 = (case map_of (cm_changed cm1) (ci_type instance) of
                        None \<Rightarrow> cm1
                      | Some changed \<Rightarrow>
                          cm1\<lparr>cm_changed :=
                                AList.update (ci_type instance) (ba_set changed entity False)
                                  (cm_changed cm1)\<rparr>)
           in (getEntityComponentsDirect cm2 entity, cm2)))"

definition setEntityData ::
  "ComponentManager \<Rightarrow> ComponentArg \<Rightarrow> Entity \<Rightarrow> (string \<times> int) list option \<Rightarrow> ComponentManager" where
  "setEntityData cm component entity val =
     (case (getInstance cm component, val) of
        (Some instance, Some d) \<Rightarrow>
          (case (ci_storage instance, cm_storage cm instance) of
             (Some key, Some storage) \<Rightarrow>
               cm\<lparr>cm_buffer := AList.update key (write_fields d entity storage) (cm_buffer cm)\<rparr>
           | _ \<Rightarrow> cm)
      | _ \<Rightarrow> cm)"

text \<open>The proxy of a component, reached through \<^verbatim>\<open>instance.proxy\<close>: moving its cursor and
  writing one field through it.\<close>

definition proxy_set_entity ::
  "ComponentManager \<Rightarrow> ComponentArg \<Rightarrow> int \<Rightarrow> error option \<times> ComponentManager" where
  "proxy_set_entity cm component v =
     (case getInstance cm component of
        None \<Rightarrow> (None, cm)
      | Some instance \<Rightarrow>
          (case map_of (cm_proxies cm) (ci_name instance) of
             None \<Rightarrow> (None, cm)
           | Some p \<Rightarrow>
               (let (err, p') = sp_set_entity p v
                in (err, cm\<lparr>cm_proxies := AList.update (ci_name instance) p' (cm_proxies cm)\<rparr>))))"

definition proxy_write :: "ComponentManager \<Rightarrow> ComponentArg \<Rightarrow> string \<Rightarrow> int \<Rightarrow> ComponentManager" where
  "proxy_write cm component key v =
     (case getInstance cm component of
        None \<Rightarrow> cm
      | Some instance \<Rightarrow>
          (case (map_of (cm_proxies cm) (ci_name instance), ci_storage instance,
                 cm_storage cm instance, map_of (cm_changed cm) (ci_type instance)) of
             (Some p, Some skey, Some storage, Some changed) \<Rightarrow>
               (let (storage', changed') = sp_write p key v (storage, changed)
                in cm\<lparr>cm_buffer := AList.update skey storage' (cm_buffer cm),
                       cm_changed := AList.update (ci_type instance) changed' (cm_changed cm)\<rparr>)
           | _ \<Rightarrow> cm))"

section \<open>The entity id pool and the EntityManager\<close>

text \<open>
  Modelled from the spec: the class \<^verbatim>\<open>BitPool\<close> (package \<^verbatim>\<open>@phughesmcr/bitpool\<close>) is not
  among the sources. The spec (sections 1 and 2) describes a bitset-backed pool that acquires
  and releases integer ids in \<open>[0, capacity)\<close>, counts the occupied ids and enumerates them;
  \<^verbatim>\<open>acquire\<close> answers \<open>-1\<close> when no id is free, which is what \<^verbatim>\<open>EntityManager.create\<close>
  tests. The pool hands out the lowest free id, as the examples of \<^verbatim>\<open>mod.ts\<close> show
  (the first three entities are 0, 1 and 2).
\<close>

record BitPool =
  bp_bits :: "bool list"

definition BitPool_new :: "nat \<Rightarrow> BitPool" where
  "BitPool_new n = \<lparr>bp_bits = replicate n False\<rparr>"

definition bp_size :: "BitPool \<Rightarrow> nat" where
  "bp_size p = length (bp_bits p)"

definition bp_acquire :: "BitPool \<Rightarrow> int \<times> BitPool" where
  "bp_acquire p =
     (case filter (\<lambda>i. \<not> bp_bits p ! i) [0..<bp_size p] of
        [] \<Rightarrow> (- 1, p)
      | i # _ \<Rightarrow> (int i, p\<lparr>bp_bits := (bp_bits p)[i := True]\<rparr>))"

definition bp_release :: "BitPool \<Rightarrow> nat \<Rightarrow> BitPool" where
  "bp_release p i = (if i < bp_size p then p\<lparr>bp_bits := (bp_bits p)[i := False]\<rparr> else p)"

definition bp_isOccupied :: "BitPool \<Rightarrow> nat \<Rightarrow> bool" where
  "bp_isOccupied p i = (i < bp_size p \<and> bp_bits p ! i)"

definition bp_occupiedCount :: "BitPool \<Rightarrow> nat" where
  "bp_occupiedCount p = length (filter (\<lambda>b. b) (bp_bits p))"

definition bp_occupiedIndices :: "BitPool \<Rightarrow> nat list" where
  "bp_occupiedIndices p = filter (\<lambda>i. bp_bits p ! i) [0..<bp_size p]"

text \<open>\<^verbatim>\<open>class EntityManager\<close>. The constant \<^verbatim>\<open>BitPool.MAX_SAFE_SIZE\<close>, to which
  \<^verbatim>\<open>MAX_CAPACITY\<close> is set, is not among the sources and is a parameter of the constructor.\<close>

definition MAX_UINT32 :: nat where
  "MAX_UINT32 = 0xffffffff"

definition isUint32 :: "nat \<Rightarrow> bool" where
  "isUint32 n = (n \<le> MAX_UINT32)"

definition isPositiveUint32 :: "nat \<Rightarrow> bool" where
  "isPositiveUint32 n = (isUint32 n \<and> n > 0)"

record EntityManager =
  em_pool :: BitPool

definition EntityManager_new :: "nat \<Rightarrow> nat \<Rightarrow> error + EntityManager" where
  "EntityManager_new max_capacity capacity =
     (if \<not> isUint32 capacity then Inl TypeError
      else if capacity \<le> 0 \<or> capacity > max_capacity then Inl RangeError
      else Inr \<lparr>em_pool = BitPool_new capacity\<rparr>)"

definition em_capacity :: "EntityManager \<Rightarrow> nat" where
  "em_capacity em = bp_size (em_pool em)"

definition EntityManager_create :: "EntityManager \<Rightarrow> Entity option \<times> EntityManager" where
  "EntityManager_create em =
     (let (entity, pool) = bp_acquire (em_pool em)
      in if entity = - 1 then (None, em\<lparr>em_pool := pool\<rparr>)
         else (Some (nat entity), em\<lparr>em_pool := pool\<rparr>))"

definition isEntity :: "EntityManager \<Rightarrow> Entity \<Rightarrow> bool" where
  "isEntity em entity = ((entity = 0 \<or> isPositiveUint32 entity) \<and> entity < em_capacity em)"

definition isActive :: "EntityManager \<Rightarrow> Entity \<Rightarrow> bool" where
  "isActive em entity = (isEntity em entity \<and> bp_isOccupied (em_pool em) entity)"

definition EntityManager_destroy :: "EntityManager \<Rightarrow> Entity \<Rightarrow> error + EntityManager" where
  "EntityManager_destroy em entity =
     (if \<not> isEntity em entity then Inl EntityNotFoundError
      else Inr (em\<lparr>em_pool := bp_release (em_pool em) entity\<rparr>))"

definition getActiveCount :: "EntityManager \<Rightarrow> nat" where
  "getActiveCount em = bp_occupiedCount (em_pool em)"

definition getAvailableCount :: "EntityManager \<Rightarrow> nat" where
  "getAvailableCount em = em_capacity em - bp_occupiedCount (em_pool em)"

definition getActive :: "EntityManager \<Rightarrow> Entity list" where
  "getActive em = bp_occupiedIndices (em_pool em)"

text \<open>The changed bit of a component at an entity, \<^verbatim>\<open>#changed.get(type)?.get(entity)\<close>.\<close>

definition changedBit :: "ComponentManager \<Rightarrow> Component \<Rightarrow> Entity \<Rightarrow> bool" where
  "changedBit cm c entity =
     (case map_of (cm_changed cm) c of
        None \<Rightarrow> False
      | Some changed \<Rightarrow> ba_get changed entity)"

text \<open>The state the component manager's constructor establishes and its methods keep: every
  registered instance is filed under its own descriptor, and every registered descriptor has
  an owner array and a changed array of the world's capacity.\<close>

definition cm_inv :: "nat \<Rightarrow> ComponentManager \<Rightarrow> bool" where
  "cm_inv capacity cm =
     ((\<forall>c i. map_of (cm_registry cm) c = Some i \<longrightarrow> ci_type i = c)
      \<and> (\<forall>n i. map_of (cm_registryByName cm) n = Some i \<longrightarrow>
             map_of (cm_registry cm) (ci_type i) \<noteq> None)
      \<and> (\<forall>c. map_of (cm_registry cm) c \<noteq> None \<longrightarrow>
             (\<exists>b. map_of (cm_owners cm) c = Some b \<and> ba_wf capacity b)
             \<and> (\<exists>b. map_of (cm_changed cm) c = Some b \<and> ba_wf capacity b)))"

text \<open>Concrete inputs: a tag \<open>A\<close>, a component \<open>Pos\<close> with one unsigned byte field and one
  32-bit field, a world of capacity 2 over both, and the partition and changed array of
  \<open>Pos\<close> in it.\<close>

definition ex_A :: Component where
  "ex_A = \<lparr>c_name = ''A'', c_schema = None, c_maxEntities = None\<rparr>"

definition ex_Pos :: Component where
  "ex_Pos = \<lparr>c_name = ''Pos'', c_schema = Some [(''x'', Uint8Array), (''y'', Int32Array)],
             c_maxEntities = None\<rparr>"



definition ex_storage :: PartitionStorage where
  "ex_storage = [(''x'', TypedArray_new Uint8Array 2), (''y'', TypedArray_new Int32Array 2)]"

definition ex_root :: Archetype where
  "ex_root = Archetype_new 2 [] (Some (BooleanArray_new 2))"

section \<open>ArchetypeManager\<close>

text \<open>
  \<^verbatim>\<open>class ArchetypeManager\<close>. Archetypes are shared, mutable objects: the registry owns them
  and every other place (\<^verbatim>\<open>entityArchetypes\<close>, \<^verbatim>\<open>root\<close>, the sets of the queries) holds a
  reference, which is the archetype's id here and is resolved through the registry.
  \<^verbatim>\<open>entityArchetypes\<close> is a JavaScript array with holes: \<open>None\<close> is \<^verbatim>\<open>undefined\<close>, a read
  past the end is \<^verbatim>\<open>undefined\<close> and a write past the end extends the array.
\<close>

record ArchetypeManager =
  am_registry :: "(ArchetypeId \<times> Archetype) list"
  am_entityArchetypes :: "ArchetypeId option list"
  am_queryArchetypes :: "(QueryId \<times> ArchetypeId list) list"
  am_root :: ArchetypeId
  am_componentCount :: nat
  am_capacity :: nat

definition js_array_get :: "'a option list \<Rightarrow> nat \<Rightarrow> 'a option" where
  "js_array_get xs i = (if i < length xs then xs ! i else None)"

definition js_array_set :: "'a option list \<Rightarrow> nat \<Rightarrow> 'a \<Rightarrow> 'a option list" where
  "js_array_set xs i v =
     (if i < length xs then xs[i := Some v]
      else xs @ replicate (i - length xs) None @ [Some v])"

definition js_array_set_length :: "'a option list \<Rightarrow> nat \<Rightarrow> 'a option list" where
  "js_array_set_length xs n =
     (if n \<le> length xs then take n xs else xs @ replicate (n - length xs) None)"

text \<open>Adding to a JavaScript \<^verbatim>\<open>Set\<close>, which keeps insertion order.\<close>

definition set_add :: "'a \<Rightarrow> 'a list \<Rightarrow> 'a list" where
  "set_add x xs = (if x \<in> set xs then xs else xs @ [x])"

definition ArchetypeManager_new :: "nat \<Rightarrow> nat \<Rightarrow> ArchetypeManager" where
  "ArchetypeManager_new capacity componentCount =
     (let root = Archetype_new capacity [] (Some (BooleanArray_new componentCount))
      in \<lparr>am_registry = [(a_id root, root)],
          am_entityArchetypes = replicate capacity None,
          am_queryArchetypes = [],
          am_root = a_id root,
          am_componentCount = componentCount,
          am_capacity = capacity\<rparr>)"

text \<open>Calling a method of the archetype object a reference points to.\<close>

definition am_modify ::
  "ArchetypeId \<Rightarrow> (Archetype \<Rightarrow> Archetype) \<Rightarrow> ArchetypeManager \<Rightarrow> ArchetypeManager" where
  "am_modify k f am =
     (case map_of (am_registry am) k of
        None \<Rightarrow> am
      | Some a \<Rightarrow> am\<lparr>am_registry := AList.update k (f a) (am_registry am)\<rparr>)"

definition getEntityArchetype :: "ArchetypeManager \<Rightarrow> Entity \<Rightarrow> ArchetypeId option" where
  "getEntityArchetype am entity = js_array_get (am_entityArchetypes am) entity"

definition ArchetypeManager_has :: "ArchetypeManager \<Rightarrow> ArchetypeId \<Rightarrow> bool" where
  "ArchetypeManager_has am archetype = (map_of (am_registry am) archetype \<noteq> None)"


definition ArchetypeManager_query :: "ArchetypeManager \<Rightarrow> QueryInstance \<Rightarrow> ArchetypeId list option" where
  "ArchetypeManager_query am query = map_of (am_queryArchetypes am) (qi_id query)"

text \<open>\<^verbatim>\<open>set\<close> throws before it changes anything.\<close>

definition ArchetypeManager_set ::
  "ArchetypeManager \<Rightarrow> ArchetypeId \<Rightarrow> Entity \<Rightarrow> error + (ArchetypeId \<times> ArchetypeManager)" where
  "ArchetypeManager_set am archetype entity =
     (if map_of (am_registry am) archetype = None then Inl NotRegisteredError
      else if entity \<ge> length (am_entityArchetypes am) then Inl RangeError
      else
        (let currentArchetype = js_array_get (am_entityArchetypes am) entity
         in if currentArchetype = Some archetype then Inr (archetype, am)
            else
              (let am1 = (case currentArchetype of
                            None \<Rightarrow> am
                          | Some k \<Rightarrow> am_modify k (\<lambda>a. removeEntity a entity) am);
                   am2 = am1\<lparr>am_entityArchetypes :=
                               js_array_set (am_entityArchetypes am1) entity archetype\<rparr>;
                   am3 = am_modify archetype (\<lambda>a. addEntity a entity) am2
               in Inr (archetype, am3))))"

definition ArchetypeManager_reset :: "ArchetypeManager \<Rightarrow> Entity \<Rightarrow> error + ArchetypeManager" where
  "ArchetypeManager_reset am entity =
     (case ArchetypeManager_set am (am_root am) entity of
        Inl e \<Rightarrow> Inl e
      | Inr (a, am') \<Rightarrow> Inr am')"

text \<open>The loop of \<^verbatim>\<open>init\<close>; what it has done before a throw stays done.\<close>

fun init_loop :: "ArchetypeManager \<Rightarrow> nat list \<Rightarrow> error option \<times> ArchetypeManager" where
  "init_loop am [] = (None, am)"
| "init_loop am (i # is) =
     (case ArchetypeManager_set am (am_root am) i of
        Inl e \<Rightarrow> (Some e, am)
      | Inr (a, am') \<Rightarrow>
          init_loop (am'\<lparr>am_entityArchetypes := js_array_set (am_entityArchetypes am') i a\<rparr>) is)"

definition ArchetypeManager_init :: "ArchetypeManager \<Rightarrow> error option \<times> ArchetypeManager" where
  "ArchetypeManager_init am =
     init_loop
       (am\<lparr>am_entityArchetypes := js_array_set_length (am_entityArchetypes am) (am_capacity am)\<rparr>)
       [0..<am_capacity am]"

text \<open>The mask \<^verbatim>\<open>update\<close> builds in its scratch bit array.\<close>

definition update_bitfield :: "nat \<Rightarrow> ComponentInstance list \<Rightarrow> BooleanArray" where
  "update_bitfield componentCount components =
     fold (\<lambda>c b. ba_set b (ci_id c) True) components
       (ba_clear (BooleanArray_new componentCount))"

definition ArchetypeManager_update ::
  "ArchetypeManager \<Rightarrow> Entity \<Rightarrow> ComponentInstance list \<Rightarrow> ArchetypeId \<times> ArchetypeManager" where
  "ArchetypeManager_update am entity components =
     (let oldArchetype = js_array_get (am_entityArchetypes am) entity;
          bitfield = update_bitfield (am_componentCount am) components;
          archetypeId = ba_buffer bitfield;
          oldId = (case oldArchetype of
                     None \<Rightarrow> None
                   | Some k \<Rightarrow> map_option a_id (map_of (am_registry am) k))
      in (case (oldArchetype, oldId = Some archetypeId) of
            (Some k, True) \<Rightarrow> (k, am)
          | _ \<Rightarrow>
              (let am1 = (case map_of (am_registry am) archetypeId of
                            Some a \<Rightarrow> am
                          | None \<Rightarrow>
                              am\<lparr>am_registry :=
                                   AList.update archetypeId
                                     (Archetype_new (am_capacity am) components (Some bitfield))
                                     (am_registry am)\<rparr>);
                   am2 = (case oldArchetype of
                            None \<Rightarrow> am1
                          | Some k \<Rightarrow> am_modify k (\<lambda>a. removeEntity a entity) am1);
                   am3 = am_modify archetypeId (\<lambda>a. addEntity a entity) am2;
                   am4 = am3\<lparr>am_entityArchetypes :=
                               js_array_set (am_entityArchetypes am3) entity archetypeId\<rparr>
               in (archetypeId, am4))))"

text \<open>\<^verbatim>\<open>refresh\<close>: the inner loop tests one archetype against every query, the outer loop
  runs over the registry and ends each round with \<^verbatim>\<open>archetype.refresh()\<close>. The query
  instances are changed in place (their \<^verbatim>\<open>archetypes\<close> sets) and are returned.\<close>

fun refresh_queries ::
  "Archetype \<Rightarrow> QueryInstance list \<Rightarrow> (QueryId \<times> ArchetypeId list) list
     \<Rightarrow> Archetype \<times> QueryInstance list \<times> (QueryId \<times> ArchetypeId list) list" where
  "refresh_queries a [] qa = (a, [], qa)"
| "refresh_queries a (q # qs) qa =
     (let (candidate, a1) = isCandidate a q;
          (q1, qa1) =
            (if candidate \<and> getPopulationCount a1 > 0
             then (q\<lparr>qi_archetypes := set_add (a_id a1) (qi_archetypes q)\<rparr>,
                   AList.update (qi_id q)
                     (set_add (a_id a1)
                        (case map_of qa (qi_id q) of None \<Rightarrow> [] | Some s \<Rightarrow> s)) qa)
             else (q, qa));
          (a2, qs2, qa2) = refresh_queries a1 qs qa1
      in (a2, q1 # qs2, qa2))"

fun refresh_archetypes ::
  "(ArchetypeId \<times> Archetype) list \<Rightarrow> QueryInstance list \<Rightarrow> (QueryId \<times> ArchetypeId list) list
     \<Rightarrow> (ArchetypeId \<times> Archetype) list \<times> QueryInstance list \<times> (QueryId \<times> ArchetypeId list) list" where
  "refresh_archetypes [] qs qa = ([], qs, qa)"
| "refresh_archetypes ((k, a) # reg) qs qa =
     (let (a1, qs1, qa1) = refresh_queries a qs qa;
          (reg2, qs2, qa2) = refresh_archetypes reg qs1 qa1
      in ((k, Archetype_refresh a1) # reg2, qs2, qa2))"

definition ArchetypeManager_refresh ::
  "ArchetypeManager \<Rightarrow> QueryInstance list \<Rightarrow> ArchetypeManager \<times> QueryInstance list" where
  "ArchetypeManager_refresh am queries =
     (let qa0 = fold (\<lambda>q qa. AList.update (qi_id q) [] qa) queries [];
          qs0 = map (\<lambda>q. q\<lparr>qi_archetypes := []\<rparr>) queries;
          (reg, qs, qa) = refresh_archetypes (am_registry am) qs0 qa0
      in (am\<lparr>am_registry := reg, am_queryArchetypes := qa\<rparr>, qs))"

definition ArchetypeManager_destroy :: "ArchetypeManager \<Rightarrow> ArchetypeManager" where
  "ArchetypeManager_destroy am =
     am\<lparr>am_registry := [], am_entityArchetypes := [], am_queryArchetypes := []\<rparr>"

section \<open>Query cache, result pool and QueryManager\<close>

record QueryResultPool =
  qp_entityArrays :: "BooleanArray list"
  qp_size :: nat

definition QueryResultPool_new :: "nat \<Rightarrow> QueryResultPool" where
  "QueryResultPool_new n = \<lparr>qp_entityArrays = [], qp_size = n\<rparr>"

definition acquireEntityArray :: "QueryResultPool \<Rightarrow> BooleanArray \<times> QueryResultPool" where
  "acquireEntityArray p =
     (if qp_entityArrays p = [] then (BooleanArray_new (qp_size p), p)
      else (last (qp_entityArrays p), p\<lparr>qp_entityArrays := butlast (qp_entityArrays p)\<rparr>))"

definition releaseEntityArray :: "QueryResultPool \<Rightarrow> BooleanArray \<Rightarrow> QueryResultPool" where
  "releaseEntityArray p array = p\<lparr>qp_entityArrays := qp_entityArrays p @ [ba_clear array]\<rparr>"

text \<open>
  \<^verbatim>\<open>class QueryCache\<close>. Its \<^verbatim>\<open>#pool\<close> is the pool of the query manager, the same object; the
  methods that use it take it and return it. The version is a JavaScript number that only
  ever counts up from 0, a natural number here.
\<close>

record QueryCache =
  qc_componentCache :: "(QueryId \<times> (string \<times> ComponentInstance) list) list"
  qc_entityCache :: "(QueryId \<times> BooleanArray) list"
  qc_globalVersion :: nat

definition QueryCache_new :: QueryCache where
  "QueryCache_new = \<lparr>qc_componentCache = [], qc_entityCache = [], qc_globalVersion = 0\<rparr>"

definition QueryCache_invalidate :: "QueryCache \<Rightarrow> QueryCache" where
  "QueryCache_invalidate c = c\<lparr>qc_globalVersion := qc_globalVersion c + 1\<rparr>"

definition QueryCache_getComponents ::
  "QueryCache \<Rightarrow> QueryId \<Rightarrow> (string \<times> ComponentInstance) list \<Rightarrow> nat
     \<Rightarrow> (string \<times> ComponentInstance) list \<times> QueryCache" where
  "QueryCache_getComponents c queryId compute lastVersion =
     (let c1 = (if lastVersion < qc_globalVersion c
                then c\<lparr>qc_componentCache := AList.delete queryId (qc_componentCache c)\<rparr>
                else c)
      in (case map_of (qc_componentCache c1) queryId of
            Some cached \<Rightarrow> (cached, c1)
          | None \<Rightarrow>
              (compute,
               c1\<lparr>qc_componentCache := AList.update queryId compute (qc_componentCache c1)\<rparr>)))"

text \<open>\<^verbatim>\<open>getEntities\<close>. Its \<^verbatim>\<open>compute\<close> argument is a closure over the query manager that
  uses the pool and the manager's \<^verbatim>\<open>visited\<close> array; both are passed through it.\<close>

definition QueryCache_getEntities ::
  "QueryCache \<Rightarrow> QueryResultPool \<times> BooleanArray \<Rightarrow> QueryId
     \<Rightarrow> (QueryResultPool \<times> BooleanArray \<Rightarrow> BooleanArray \<times> QueryResultPool \<times> BooleanArray)
     \<Rightarrow> nat \<Rightarrow> BooleanArray \<times> QueryCache \<times> QueryResultPool \<times> BooleanArray" where
  "QueryCache_getEntities c pv queryId compute lastVersion =
     (let (c1, pv1) =
            (if lastVersion < qc_globalVersion c
             then (c\<lparr>qc_entityCache := AList.delete queryId (qc_entityCache c)\<rparr>,
                   (case map_of (qc_entityCache c) queryId of
                      None \<Rightarrow> pv
                    | Some oldArray \<Rightarrow> (releaseEntityArray (fst pv) oldArray, snd pv)))
             else (c, pv))
      in (case map_of (qc_entityCache c1) queryId of
            Some cached \<Rightarrow> (cached, c1, pv1)
          | None \<Rightarrow>
              (let (result, pv2) = compute pv1
               in (result,
                   c1\<lparr>qc_entityCache := AList.update queryId result (qc_entityCache c1)\<rparr>,
                   pv2))))"

definition QueryCache_clear :: "QueryCache \<Rightarrow> QueryResultPool \<Rightarrow> QueryCache \<times> QueryResultPool" where
  "QueryCache_clear c pool =
     (c\<lparr>qc_entityCache := [], qc_componentCache := []\<rparr>,
      fold (\<lambda>(k, array) p. releaseEntityArray p array) (qc_entityCache c) pool)"

record QueryManager =
  qm_cache :: QueryCache
  qm_lastQueryVersion :: "(QueryId \<times> nat) list"
  qm_pool :: QueryResultPool
  qm_instancesByID :: "(QueryId \<times> QueryInstance) list"
  qm_idsByQuery :: "(Query \<times> QueryId) list"
  qm_visited :: BooleanArray

definition QueryManager_new :: "nat \<Rightarrow> QueryManager" where
  "QueryManager_new capacity =
     \<lparr>qm_cache = QueryCache_new,
      qm_lastQueryVersion = [],
      qm_pool = QueryResultPool_new capacity,
      qm_instancesByID = [],
      qm_idsByQuery = [],
      qm_visited = BooleanArray_new capacity\<rparr>"

text \<open>\<^verbatim>\<open>getInstances(...).filter(Boolean)\<close>\<close>

definition known_instances :: "ComponentInstance option list \<Rightarrow> ComponentInstance list" where
  "known_instances xs = concat (map (\<lambda>x. case x of None \<Rightarrow> [] | Some i \<Rightarrow> [i]) xs)"

definition createQueryInstance ::
  "(Component list \<Rightarrow> ComponentInstance option list) \<Rightarrow> nat \<Rightarrow> Query \<Rightarrow> QueryInstance" where
  "createQueryInstance getInsts n query =
     (let andInstances = known_instances (getInsts (q_all query));
          and_mask = fold (\<lambda>i b. ba_set b (ci_id i) True) andInstances (BooleanArray_new n);
          orInstances = known_instances (getInsts (q_any query));
          or_mask = fold (\<lambda>i b. ba_set b (ci_id i) True) orInstances (BooleanArray_new n);
          notInstances = known_instances (getInsts (q_none query));
          not_mask = fold (\<lambda>i b. ba_set b (ci_id i) True) notInstances (BooleanArray_new n);
          components = fold (\<lambda>i m. AList.update (ci_name i) i m) (andInstances @ orInstances) []
      in \<lparr>qi_and = and_mask, qi_or = or_mask, qi_not = not_mask, qi_archetypes = [],
          qi_components = components, qi_isDirty = True,
          qi_id = (ba_buffer and_mask, ba_buffer or_mask, ba_buffer not_mask)\<rparr>)"

text \<open>The closure \<^verbatim>\<open>isCandidate(target, idx)\<close> that \<^verbatim>\<open>createQueryInstance\<close> also stores
  in the instance is left out: nothing in the sources calls it.\<close>

definition QueryManager_invalidate :: "QueryManager \<Rightarrow> Query option \<Rightarrow> QueryManager" where
  "QueryManager_invalidate qm query =
     (case query of
        Some q \<Rightarrow>
          (case map_of (qm_idsByQuery qm) q of
             Some queryId \<Rightarrow>
               qm\<lparr>qm_lastQueryVersion :=
                    AList.update queryId (qc_globalVersion (qm_cache qm)) (qm_lastQueryVersion qm)\<rparr>
           | None \<Rightarrow> qm)
      | None \<Rightarrow> qm\<lparr>qm_cache := QueryCache_invalidate (qm_cache qm)\<rparr>)"

text \<open>\<^verbatim>\<open>this.lastQueryVersion.get(queryId) ?? 0\<close>\<close>

definition lastVersion :: "QueryManager \<Rightarrow> QueryId \<Rightarrow> nat" where
  "lastVersion qm queryId =
     (case map_of (qm_lastQueryVersion qm) queryId of None \<Rightarrow> 0 | Some v \<Rightarrow> v)"

section \<open>World\<close>

datatype WorldState = Uninitialized | Initialized | Destroyed | Errored

record WorldSpec =
  ws_capacity :: nat
  ws_components :: "Component list"

record World =
  w_archetypeManager :: ArchetypeManager
  w_componentManager :: ComponentManager
  w_entityManager :: EntityManager
  w_queryManager :: QueryManager
  w_state :: WorldState

text \<open>
  \<^verbatim>\<open>isValidWorldSpec\<close>. The predicate \<^verbatim>\<open>isValidComponentArray\<close> (module
  \<^verbatim>\<open>component.ts\<close>) is not among the sources and is a parameter, like the constant
  \<^verbatim>\<open>MAX_CAPACITY\<close> of the entity manager. Systems and their hooks are outside the core: the
  system manager of the world has no systems registered.
\<close>

definition isValidWorldSpec :: "(Component list \<Rightarrow> bool) \<Rightarrow> WorldSpec \<Rightarrow> bool" where
  "isValidWorldSpec isValidComponentArray spec =
     (isPositiveUint32 (ws_capacity spec) \<and> isValidComponentArray (ws_components spec)
      \<and> length (ws_components spec) > 0)"

definition World_new :: "nat \<Rightarrow> (Component list \<Rightarrow> bool) \<Rightarrow> WorldSpec \<Rightarrow> error + World" where
  "World_new max_capacity isValidComponentArray spec =
     (if \<not> isValidWorldSpec isValidComponentArray spec then Inl SpecError
      else
        (case EntityManager_new max_capacity (ws_capacity spec) of
           Inl e \<Rightarrow> Inl e
         | Inr em \<Rightarrow>
             Inr \<lparr>w_archetypeManager =
                    ArchetypeManager_new (ws_capacity spec) (length (ws_components spec)),
                  w_componentManager =
                    ComponentManager_new (ws_capacity spec) (ws_components spec),
                  w_entityManager = em,
                  w_queryManager = QueryManager_new (ws_capacity spec),
                  w_state = Uninitialized\<rparr>))"

definition w_capacity :: "World \<Rightarrow> nat" where
  "w_capacity w = em_capacity (w_entityManager w)"

text \<open>\<^verbatim>\<open>assertWorldState\<close>: every mismatch throws a \<open>WorldStateError\<close>.\<close>

definition assertWorldState :: "WorldState \<Rightarrow> WorldState \<Rightarrow> error option" where
  "assertWorldState target current = (if current = target then None else Some WorldStateError)"

text \<open>
  The methods of the world return the exception thrown (if any) and the world as the call
  leaves it. \<^verbatim>\<open>refresh\<close> asserts the state before its \<^verbatim>\<open>try\<close> block; nothing inside the
  block can throw in this model. The query instances that \<^verbatim>\<open>ArchetypeManager.refresh\<close>
  changed in place are the values of \<^verbatim>\<open>instancesByID\<close>.
\<close>

definition World_refresh :: "World \<Rightarrow> bool \<Rightarrow> error option \<times> World" where
  "World_refresh w retainChanged =
     (case assertWorldState Initialized (w_state w) of
        Some e \<Rightarrow> (Some e, w)
      | None \<Rightarrow>
          (let qm = w_queryManager w;
               (am', queries') =
                 ArchetypeManager_refresh (w_archetypeManager w) (map snd (qm_instancesByID qm));
               qm1 = qm\<lparr>qm_instancesByID := zip (map fst (qm_instancesByID qm)) queries'\<rparr>;
               cm' = (if \<not> retainChanged then ComponentManager_refresh (w_componentManager w)
                      else w_componentManager w);
               qm2 = QueryManager_invalidate qm1 None
           in (None, w\<lparr>w_archetypeManager := am', w_componentManager := cm',
                        w_queryManager := qm2\<rparr>)))"

definition World_init :: "World \<Rightarrow> error option \<times> World" where
  "World_init w =
     (case assertWorldState Uninitialized (w_state w) of
        Some e \<Rightarrow> (Some e, w)
      | None \<Rightarrow>
          (case ArchetypeManager_init (w_archetypeManager w) of
             (Some e, am') \<Rightarrow> (Some e, w\<lparr>w_archetypeManager := am', w_state := Errored\<rparr>)
           | (None, am') \<Rightarrow>
               (case World_refresh (w\<lparr>w_archetypeManager := am', w_state := Initialized\<rparr>) False of
                  (Some e, w') \<Rightarrow> (Some e, w'\<lparr>w_state := Errored\<rparr>)
                | (None, w') \<Rightarrow>
                    (case assertWorldState Initialized (w_state w') of
                       Some e \<Rightarrow> (Some e, w'\<lparr>w_state := Errored\<rparr>)
                     | None \<Rightarrow> (None, w')))))"

definition World_destroy :: "World \<Rightarrow> error option \<times> World" where
  "World_destroy w =
     (case assertWorldState Initialized (w_state w) of
        Some e \<Rightarrow> (Some e, w)
      | None \<Rightarrow> (None, w\<lparr>w_state := Destroyed\<rparr>))"

text \<open>\<^verbatim>\<open>QueryManager.register\<close>, a closure over the world: a new instance is stored and,
  in an initialized world, followed by \<^verbatim>\<open>world.refresh(true)\<close>. The instance returned is
  the object stored under its id, read after the refresh.\<close>

definition World_register :: "World \<Rightarrow> Query \<Rightarrow> (error + QueryInstance) \<times> World" where
  "World_register w query =
     (let qm = w_queryManager w;
          existing = (case map_of (qm_idsByQuery qm) query of
                        None \<Rightarrow> None
                      | Some queryId \<Rightarrow> map_of (qm_instancesByID qm) queryId)
      in (case existing of
            Some instance \<Rightarrow> (Inr instance, w)
          | None \<Rightarrow>
              (let instance = createQueryInstance (getInstances (w_componentManager w))
                                (cm_count (w_componentManager w)) query;
                   queryId = qi_id instance;
                   qm1 = qm\<lparr>qm_idsByQuery := AList.update query queryId (qm_idsByQuery qm),
                            qm_instancesByID :=
                              AList.update queryId instance (qm_instancesByID qm)\<rparr>;
                   w1 = w\<lparr>w_queryManager := qm1\<rparr>
               in if w_state w1 = Initialized
                  then (case World_refresh w1 True of
                          (Some e, w2) \<Rightarrow> (Inl e, w2)
                        | (None, w2) \<Rightarrow>
                            (case map_of (qm_instancesByID (w_queryManager w2)) queryId of
                               Some i \<Rightarrow> (Inr i, w2)
                             | None \<Rightarrow> (Inr instance, w2)))
                  else (Inr instance, w1))))"

text \<open>The entities of the archetypes a query instance refers to, each once, in the order
  the two nested loops over \<^verbatim>\<open>instance.archetypes\<close> and \<^verbatim>\<open>archetype.getEntities()\<close> visit
  them; \<open>visited\<close> and \<open>result\<close> are the two bit arrays of \<^verbatim>\<open>getEntitiesFromQuery\<close>.\<close>

fun collect_entities ::
  "Entity list \<Rightarrow> BooleanArray \<times> BooleanArray \<Rightarrow> BooleanArray \<times> BooleanArray" where
  "collect_entities [] vr = vr"
| "collect_entities (entity # es) (visited, result) =
     (if ba_get visited entity then collect_entities es (visited, result)
      else collect_entities es (ba_set visited entity True, ba_set result entity True))"

definition compute_entities ::
  "ArchetypeManager \<Rightarrow> QueryInstance \<Rightarrow> QueryResultPool \<times> BooleanArray
     \<Rightarrow> BooleanArray \<times> QueryResultPool \<times> BooleanArray" where
  "compute_entities am instance pv =
     (let (result0, pool') = acquireEntityArray (fst pv);
          archetypes = concat (map (\<lambda>k. case map_of (am_registry am) k of
                                            None \<Rightarrow> [] | Some a \<Rightarrow> [a]) (qi_archetypes instance));
          (visited, result) = fold (\<lambda>a vr. collect_entities (getEntities a) vr) archetypes
                                (ba_clear (snd pv), ba_clear result0)
      in (result, pool', ba_clear visited))"

definition getEntitiesFromQuery :: "World \<Rightarrow> Query \<Rightarrow> (error + Entity list) \<times> World" where
  "getEntitiesFromQuery w query =
     (case World_register w query of
        (Inl e, w1) \<Rightarrow> (Inl e, w1)
      | (Inr instance, w1) \<Rightarrow>
          (let qm = w_queryManager w1;
               queryId = qi_id instance;
               (result, cache', pool', visited') =
                 QueryCache_getEntities (qm_cache qm) (qm_pool qm, qm_visited qm) queryId
                   (compute_entities (w_archetypeManager w1) instance)
                   (lastVersion qm queryId);
               qm' = qm\<lparr>qm_cache := cache', qm_pool := pool', qm_visited := visited',
                        qm_lastQueryVersion :=
                          AList.update queryId (qc_globalVersion cache') (qm_lastQueryVersion qm)\<rparr>
           in (Inr (truthyIndices result), w1\<lparr>w_queryManager := qm'\<rparr>)))"

definition getComponentsFromQuery ::
  "World \<Rightarrow> Query \<Rightarrow> (error + (string \<times> ComponentInstance) list) \<times> World" where
  "getComponentsFromQuery w query =
     (case World_register w query of
        (Inl e, w1) \<Rightarrow> (Inl e, w1)
      | (Inr instance, w1) \<Rightarrow>
          (let qm = w_queryManager w1;
               queryId = qi_id instance;
               (result, cache') =
                 QueryCache_getComponents (qm_cache qm) queryId (qi_components instance)
                   (lastVersion qm queryId);
               qm' = qm\<lparr>qm_cache := cache',
                        qm_lastQueryVersion :=
                          AList.update queryId (qc_globalVersion cache') (qm_lastQueryVersion qm)\<rparr>
           in (Inr result, w1\<lparr>w_queryManager := qm'\<rparr>)))"

text \<open>\<^verbatim>\<open>world.archetypes.queryEntered\<close> and \<^verbatim>\<open>queryExited\<close>, run to the end: the entities of
  the matching archetypes' entered (exited) arrays, each once.\<close>

fun dedup_entities :: "Entity list \<Rightarrow> BooleanArray \<Rightarrow> Entity list \<times> BooleanArray" where
  "dedup_entities [] visited = ([], visited)"
| "dedup_entities (entity # es) visited =
     (if ba_get visited entity then dedup_entities es visited
      else (let (rest, v) = dedup_entities es (ba_set visited entity True)
            in (entity # rest, v)))"

fun query_delta ::
  "(Archetype \<Rightarrow> Entity list) \<Rightarrow> Archetype list \<Rightarrow> BooleanArray \<Rightarrow> Entity list" where
  "query_delta f [] visited = []"
| "query_delta f (a # as) visited =
     (let (es, v) = dedup_entities (f a) visited in es @ query_delta f as v)"

definition World_queryDelta ::
  "(Archetype \<Rightarrow> Entity list) \<Rightarrow> World \<Rightarrow> Query \<Rightarrow> (error + Entity list) \<times> World" where
  "World_queryDelta f w query =
     (case World_register w query of
        (Inl e, w1) \<Rightarrow> (Inl e, w1)
      | (Inr instance, w1) \<Rightarrow>
          (case ArchetypeManager_query (w_archetypeManager w1) instance of
             None \<Rightarrow> (Inr [], w1)
           | Some ks \<Rightarrow>
               (Inr (query_delta f
                       (concat (map (\<lambda>k. case map_of (am_registry (w_archetypeManager w1)) k of
                                            None \<Rightarrow> [] | Some a \<Rightarrow> [a]) ks))
                       (BooleanArray_new (w_capacity w1))), w1)))"

definition queryEnteredEntities :: "World \<Rightarrow> Query \<Rightarrow> (error + Entity list) \<times> World" where
  "queryEnteredEntities = World_queryDelta getEntered"

definition queryExitedEntities :: "World \<Rightarrow> Query \<Rightarrow> (error + Entity list) \<times> World" where
  "queryExitedEntities = World_queryDelta getExited"

definition getComponentByName :: "World \<Rightarrow> ComponentArg \<Rightarrow> error + Component" where
  "getComponentByName w component =
     (case component of
        ByRef c \<Rightarrow> Inr c
      | ByName n \<Rightarrow>
          (case getInstance (w_componentManager w) (ByName n) of
             None \<Rightarrow> Inl NotRegisteredError
           | Some instance \<Rightarrow> Inr (ci_type instance)))"

definition addComponentToEntity ::
  "World \<Rightarrow> ComponentArg \<Rightarrow> Entity \<Rightarrow> (string \<times> int) list option \<Rightarrow> error option \<times> World" where
  "addComponentToEntity w component entity data =
     (case getComponentByName w component of
        Inl e \<Rightarrow> (Some e, w)
      | Inr c \<Rightarrow>
          (case addToEntity (w_componentManager w) (ByRef c) entity data of
             (Inl e, cm') \<Rightarrow> (Some e, w\<lparr>w_componentManager := cm'\<rparr>)
           | (Inr instances, cm') \<Rightarrow>
               (let (a, am') = ArchetypeManager_update (w_archetypeManager w) entity instances;
                    w1 = w\<lparr>w_componentManager := cm', w_archetypeManager := am'\<rparr>
                in if w_state w1 = Initialized then World_refresh w1 True else (None, w1))))"

definition removeComponentFromEntity ::
  "World \<Rightarrow> ComponentArg \<Rightarrow> Entity \<Rightarrow> error option \<times> World" where
  "removeComponentFromEntity w component entity =
     (case getComponentByName w component of
        Inl e \<Rightarrow> (Some e, w)
      | Inr c \<Rightarrow>
          (let (instances, cm') = removeFromEntity (w_componentManager w) (ByRef c) entity;
               (a, am') = ArchetypeManager_update (w_archetypeManager w) entity instances;
               w1 = w\<lparr>w_componentManager := cm', w_archetypeManager := am'\<rparr>
           in if w_state w1 = Initialized then World_refresh w1 True else (None, w1)))"

definition destroyEntity :: "World \<Rightarrow> Entity \<Rightarrow> error option \<times> World" where
  "destroyEntity w entity =
     (let components =
            (case getEntityArchetype (w_archetypeManager w) entity of
               None \<Rightarrow> []
             | Some k \<Rightarrow>
                 (case map_of (am_registry (w_archetypeManager w)) k of
                    None \<Rightarrow> []
                  | Some archetype \<Rightarrow> a_components archetype));
          cm' = fold (\<lambda>componentInstance cm.
                        snd (removeFromEntity cm (ByRef (ci_type componentInstance)) entity))
                  components (w_componentManager w);
          w1 = w\<lparr>w_componentManager := cm'\<rparr>
      in (case ArchetypeManager_reset (w_archetypeManager w1) entity of
            Inl e \<Rightarrow> (Some e, w1)
          | Inr am' \<Rightarrow>
              (let w2 = w1\<lparr>w_archetypeManager := am'\<rparr>
               in (case EntityManager_destroy (w_entityManager w2) entity of
                     Inl e \<Rightarrow> (Some e, w2)
                   | Inr em' \<Rightarrow>
                       (None, w2\<lparr>w_entityManager := em',
                                  w_queryManager :=
                                    QueryManager_invalidate (w_queryManager w2) None\<rparr>)))))"

definition World_create :: "World \<Rightarrow> Entity option \<times> World" where
  "World_create w =
     (let (entity, em') = EntityManager_create (w_entityManager w)
      in (entity, w\<lparr>w_entityManager := em'\<rparr>))"

section \<open>Reachable worlds\<close>

text \<open>The calls of the public interface that change the world, and what one call leaves
  behind, whether or not it threw.\<close>

datatype operation =
    Init
  | Destroy
  | Refresh bool
  | Create
  | DestroyEntity Entity
  | AddComponent ComponentArg Entity "(string \<times> int) list option"
  | RemoveComponent ComponentArg Entity
  | SetEntityData ComponentArg Entity "(string \<times> int) list option"
  | ProxySetEntity ComponentArg int
  | ProxyWrite ComponentArg string int
  | Register Query
  | QueryEntities Query
  | QueryComponents Query
  | QueryEntered Query
  | QueryExited Query
  | Invalidate "Query option"

fun World_step :: "World \<Rightarrow> operation \<Rightarrow> World" where
  "World_step w Init = snd (World_init w)"
| "World_step w Destroy = snd (World_destroy w)"
| "World_step w (Refresh retainChanged) = snd (World_refresh w retainChanged)"
| "World_step w Create = snd (World_create w)"
| "World_step w (DestroyEntity entity) = snd (destroyEntity w entity)"
| "World_step w (AddComponent c entity data) = snd (addComponentToEntity w c entity data)"
| "World_step w (RemoveComponent c entity) = snd (removeComponentFromEntity w c entity)"
| "World_step w (SetEntityData c entity data) =
     w\<lparr>w_componentManager := setEntityData (w_componentManager w) c entity data\<rparr>"
| "World_step w (ProxySetEntity c v) =
     w\<lparr>w_componentManager := snd (proxy_set_entity (w_componentManager w) c v)\<rparr>"
| "World_step w (ProxyWrite c key v) =
     w\<lparr>w_componentManager := proxy_write (w_componentManager w) c key v\<rparr>"
| "World_step w (Register q) = snd (World_register w q)"
| "World_step w (QueryEntities q) = snd (getEntitiesFromQuery w q)"
| "World_step w (QueryComponents q) = snd (getComponentsFromQuery w q)"
| "World_step w (QueryEntered q) = snd (queryEnteredEntities w q)"
| "World_step w (QueryExited q) = snd (queryExitedEntities w q)"
| "World_step w (Invalidate q) =
     w\<lparr>w_queryManager := QueryManager_invalidate (w_queryManager w) q\<rparr>"

inductive reachable :: "World \<Rightarrow> bool" where
  reachable_new: "World_new max_capacity isValidComponentArray spec = Inr w \<Longrightarrow> reachable w"
| reachable_step: "reachable w \<Longrightarrow> reachable (World_step w op)"

text \<open>Concrete runs: the world of capacity 2 over the tag \<open>A\<close> and the component \<open>Pos\<close>,
  new and after \<^verbatim>\<open>init()\<close>; the queries \<^verbatim>\<open>{ all: [A] }\<close>; and a sequence of calls.\<close>

definition ex_spec :: WorldSpec where
  "ex_spec = \<lparr>ws_capacity = 2, ws_components = [ex_A, ex_Pos]\<rparr>"

definition ex_world0 :: World where
  "ex_world0 =
     \<lparr>w_archetypeManager = ArchetypeManager_new 2 2,
      w_componentManager = ComponentManager_new 2 [ex_A, ex_Pos],
      w_entityManager = \<lparr>em_pool = BitPool_new 2\<rparr>,
      w_queryManager = QueryManager_new 2,
      w_state = Uninitialized\<rparr>"

definition ex_world :: World where
  "ex_world = World_step ex_world0 Init"


definition run :: "World \<Rightarrow> operation list \<Rightarrow> World" where
  "run w ops = fold (\<lambda>op w. World_step w op) ops w"

text \<open>The archetype an entity is filed under, and its three bits there.\<close>

definition entityArchetype :: "World \<Rightarrow> Entity \<Rightarrow> Archetype option" where
  "entityArchetype w entity =
     (case getEntityArchetype (w_archetypeManager w) entity of
        None \<Rightarrow> None
      | Some k \<Rightarrow> map_of (am_registry (w_archetypeManager w)) k)"

definition entityBits :: "World \<Rightarrow> Entity \<Rightarrow> (bool \<times> bool \<times> bool) option" where
  "entityBits w entity =
     map_option (\<lambda>a. (ba_get (a_entities a) entity, ba_get (a_entered a) entity,
                       ba_get (a_exited a) entity)) (entityArchetype w entity)"

section \<open>Invariants\<close>

text \<open>
  The archetype manager, for a world of capacity \<open>cap\<close>: the root is registered; every
  archetype is registered under its own id and has a member array of the world's capacity;
  the entity map has a slot for every entity and refers to registered archetypes only; and
  an entity is a member of an archetype iff its slot refers to that archetype.
\<close>

definition am_inv :: "nat \<Rightarrow> ArchetypeManager \<Rightarrow> bool" where
  "am_inv cap am =
     (map_of (am_registry am) (am_root am) \<noteq> None
      \<and> am_capacity am = cap
      \<and> cap \<le> length (am_entityArchetypes am)
      \<and> (\<forall>k a. map_of (am_registry am) k = Some a \<longrightarrow>
            a_id a = k \<and> ba_wf cap (a_entities a))
      \<and> (\<forall>e k. e < length (am_entityArchetypes am) \<and> am_entityArchetypes am ! e = Some k \<longrightarrow>
            map_of (am_registry am) k \<noteq> None)
      \<and> (\<forall>e k a. e < cap \<and> map_of (am_registry am) k = Some a \<longrightarrow>
            (ba_get (a_entities a) e \<longleftrightarrow> am_entityArchetypes am ! e = Some k)))"

text \<open>No query was last seen at a version the cache has not reached yet.\<close>

definition version_inv :: "QueryManager \<Rightarrow> bool" where
  "version_inv qm =
     (\<forall>q v. map_of (qm_lastQueryVersion qm) q = Some v \<longrightarrow> v \<le> qc_globalVersion (qm_cache qm))"

definition world_inv :: "World \<Rightarrow> bool" where
  "world_inv w =
     (am_inv (w_capacity w) (w_archetypeManager w)
      \<and> cm_inv (w_capacity w) (w_componentManager w)
      \<and> version_inv (w_queryManager w)
      \<and> (w_state w = Initialized \<longrightarrow>
            (\<forall>e < w_capacity w. am_entityArchetypes (w_archetypeManager w) ! e \<noteq> None)))"

text \<open>What \<^verbatim>\<open>set\<close> and \<^verbatim>\<open>update\<close> both do once they have decided to move an entity:
  remove it from the archetype of its slot (if any), add it to the target and point the slot
  at the target.\<close>

definition move_entity :: "ArchetypeManager \<Rightarrow> Entity \<Rightarrow> ArchetypeId \<Rightarrow> ArchetypeManager" where
  "move_entity am e k =
     (am_modify k (\<lambda>a. addEntity a e)
        (case js_array_get (am_entityArchetypes am) e of
           None \<Rightarrow> am
         | Some k0 \<Rightarrow> am_modify k0 (\<lambda>a. removeEntity a e) am))
     \<lparr>am_entityArchetypes := js_array_set (am_entityArchetypes am) e k\<rparr>"

text \<open>What one pass of \<^verbatim>\<open>ArchetypeManager.refresh\<close> does to an archetype: its candidate
  cache may have grown, and its entered and exited arrays are cleared.\<close>

definition refreshed :: "Archetype \<Rightarrow> Archetype \<Rightarrow> bool" where
  "refreshed a a' = (\<exists>c. a' = Archetype_refresh (a\<lparr>a_candidateCache := c\<rparr>))"

section \<open>Facts about the bit arrays\<close>

lemma div_mod_eq32: "i div 32 = j div 32 \<Longrightarrow> i mod 32 = j mod 32 \<Longrightarrow> i = (j::nat)"
  by (metis div_mult_mod_eq)

lemma ba_get_set_in_range:
  "ba_get (ba_set b i v) j = (if j = i \<and> ba_in_range b i then v else ba_get b j)"
  by (auto simp: ba_get_def ba_set_def ba_in_range_def bit_set_bit_iff bit_unset_bit_iff
        nth_list_update dest: div_mod_eq32)

lemma ba_get_set:
  "ba_get (ba_set b i v) j = (if j = i then v \<and> ba_in_range b i else ba_get b j)"
proof (cases "ba_in_range b i")
  case True
  then show ?thesis by (simp add: ba_get_set_in_range)
next
  case False
  then show ?thesis by (simp add: ba_set_def ba_get_def)
qed

lemma set_bit_idem32: "set_bit n (set_bit n w) = set_bit n (w :: 32 word)"
  by (rule bit_word_eqI) (auto simp: bit_set_bit_iff)

lemma unset_bit_idem32: "unset_bit n (unset_bit n w) = unset_bit n (w :: 32 word)"
  by (rule bit_word_eqI) (auto simp: bit_unset_bit_iff)

lemma ba_set_idem: "ba_set (ba_set b i v) i v = ba_set b i v"
  by (simp add: ba_set_def ba_in_range_def set_bit_idem32 unset_bit_idem32)

lemma ba_in_range_set [simp]: "ba_in_range (ba_set b i v) j = ba_in_range b j"
  by (simp add: ba_set_def ba_in_range_def)

lemma ba_in_range_clear [simp]: "ba_in_range (ba_clear b) j = ba_in_range b j"
  by (simp add: ba_clear_def ba_in_range_def)

lemma ba_get_clear [simp]: "ba_get (ba_clear b) i = False"
  by (simp add: ba_get_def ba_clear_def ba_in_range_def)

lemma ba_get_new [simp]: "ba_get (BooleanArray_new n) i = False"
  by (simp add: ba_get_def BooleanArray_new_def ba_in_range_def)

lemma ba_in_range_new [simp]: "ba_in_range (BooleanArray_new n) i = (i < n)"
  by (auto simp: BooleanArray_new_def ba_in_range_def)

lemma ba_wf_new [simp]: "ba_wf n (BooleanArray_new n)"
  by (simp add: ba_wf_def BooleanArray_new_def)

lemma ba_wf_set [simp]: "ba_wf n (ba_set b i v) = ba_wf n b"
  by (simp add: ba_wf_def ba_set_def)

lemma ba_wf_clear [simp]: "ba_wf n (ba_clear b) = ba_wf n b"
  by (simp add: ba_wf_def ba_clear_def)

lemma ba_wf_in_range: "ba_wf n b \<Longrightarrow> ba_in_range b i = (i < n)"
  by (auto simp: ba_wf_def ba_in_range_def)

lemma ba_get_in_range: "ba_get b i \<Longrightarrow> ba_in_range b i"
  by (simp add: ba_get_def)

lemma popcount32_zero_iff: "popcount32 w = 0 \<longleftrightarrow> w = 0"
proof
  assume "popcount32 w = 0"
  then have "\<forall>n<32. \<not> bit w n"
    by (simp add: popcount32_def filter_empty_conv)
  then show "w = 0"
    by (intro bit_word_eqI) simp
next
  assume "w = 0"
  then show "popcount32 w = 0"
    by (simp add: popcount32_def)
qed

lemma getTruthyCount_zero_iff: "getTruthyCount b = 0 \<longleftrightarrow> mask_zero (ba_buffer b)"
  by (auto simp: getTruthyCount_def mask_zero_def list_all_iff popcount32_zero_iff)

section \<open>The candidacy predicate\<close>

lemma sint_eq_uint_iff32: "sint (w :: 32 word) = uint w \<longleftrightarrow> \<not> bit w 31"
proof
  assume "sint w = uint w"
  then have "\<not> sint w < 0" by simp
  then show "\<not> bit w 31" using bit_last_iff [of w] by simp
next
  assume "\<not> bit w 31"
  then have "0 \<le> sint w" using bit_last_iff [of w] by simp
  moreover have "sint w < 2 ^ 32" using sint_lt [of w] by simp
  ultimately have "take_bit 32 (sint w) = sint w"
    by (simp add: take_bit_int_eq_self)
  then show "sint w = uint w" using uint_sint [of w] by simp
qed

text \<open>What the test \<^verbatim>\<open>(t & and) !== and\<close> decides: it also fires when the two words agree
  on a set bit 31, because the left side is then a negative number.\<close>

lemma js_and_test:
  "(js_band x a \<noteq> js_number a) \<longleftrightarrow> (x AND a \<noteq> a \<or> bit a 31)"
proof (cases "x AND a = a")
  case True
  then show ?thesis
    by (simp add: js_band_def js_number_def sint_eq_uint_iff32)
next
  case False
  have "sint (x AND a) \<noteq> uint a"
  proof (cases "bit (x AND a) 31")
    case True
    then have "sint (x AND a) < 0" using bit_last_iff [of "x AND a"] by simp
    then show ?thesis using uint_ge_0 [of a] by linarith
  next
    case nb: False
    then have "sint (x AND a) = uint (x AND a)" by (simp add: sint_eq_uint_iff32)
    with False show ?thesis by (simp add: word_uint_eq_iff)
  qed
  with False show ?thesis by (simp add: js_band_def js_number_def)
qed

lemma js_zero_test: "(js_band x a \<noteq> 0) \<longleftrightarrow> x AND a \<noteq> 0"
  by (simp add: js_band_def signed_eq_0_iff)

lemma check_and_iff:
  "check_and tb ab is \<longleftrightarrow>
     (\<forall>i\<in>set is. word_at tb i AND word_at ab i = word_at ab i \<and> \<not> bit (word_at ab i) 31)"
  by (induction "is") (auto simp: js_and_test)

lemma check_not_iff:
  "check_not tb nb is \<longleftrightarrow> (\<forall>i\<in>set is. word_at tb i AND word_at nb i = 0)"
  by (induction "is") (auto simp: js_zero_test)

lemma check_or_iff:
  "check_or tb ob is \<longleftrightarrow> (\<exists>i\<in>set is. word_at tb i AND word_at ob i \<noteq> 0)"
  by (induction "is") (auto simp: js_zero_test)

lemma mask_and_eq_iff:
  "length ab = length tb \<Longrightarrow>
     mask_and tb ab = ab \<longleftrightarrow> (\<forall>i<length tb. tb ! i AND ab ! i = ab ! i)"
  by (auto simp: mask_and_def list_eq_iff_nth_eq)

lemma mask_zero_and_iff:
  "length nb = length tb \<Longrightarrow>
     mask_zero (mask_and tb nb) \<longleftrightarrow> (\<forall>i<length tb. tb ! i AND nb ! i = 0)"
  by (auto simp: mask_and_def mask_zero_def list_all_length)

lemma no_sign_overlap_iff:
  "length (ba_buffer (qi_and q)) = length (ba_buffer t) \<Longrightarrow>
     no_sign_overlap t q \<longleftrightarrow>
       (\<forall>i<length (ba_buffer t). \<not> bit (ba_buffer t ! i AND ba_buffer (qi_and q) ! i) 31)"
  by (auto simp: no_sign_overlap_def list_all_length)

text \<open>
  C1 (as amended). For a target and a query instance whose masks have the same number of
  words, and with no word where target and \<open>and\<close> mask both have bit 31 set,
  \<open>isQueryMatch\<close> returns true iff the target has at least one bit set and the three
  conditions of the spec hold word by word.
\<close>

theorem isQueryMatch_iff_spec:
  assumes "masks_aligned t q" and "no_sign_overlap t q"
  shows "isQueryMatch t q \<longleftrightarrow> (\<not> mask_zero (ba_buffer t) \<and> spec_is_match t q)"
proof -
  let ?tb = "ba_buffer t" and ?ab = "ba_buffer (qi_and q)"
  let ?ob = "ba_buffer (qi_or q)" and ?nb = "ba_buffer (qi_not q)"
  from assms(1) have len: "length ?ab = length ?tb" "length ?ob = length ?tb"
    "length ?nb = length ?tb"
    by (simp_all add: masks_aligned_def)
  from assms(2) len(1) have sign: "\<forall>i<length ?tb. \<not> bit (?tb ! i AND ?ab ! i) 31"
    by (simp add: no_sign_overlap_iff)
  have A: "check_and ?tb ?ab [0..<ba_length t] \<longleftrightarrow> mask_and ?tb ?ab = ?ab"
  proof -
    have "check_and ?tb ?ab [0..<ba_length t] \<longleftrightarrow>
        (\<forall>i<length ?tb. ?tb ! i AND ?ab ! i = ?ab ! i \<and> \<not> bit (?ab ! i) 31)"
      using len(1) by (auto simp: check_and_iff word_at_def ba_length_def)
    also have "\<dots> \<longleftrightarrow> (\<forall>i<length ?tb. ?tb ! i AND ?ab ! i = ?ab ! i)"
      using sign by metis
    finally show ?thesis using len(1) by (simp add: mask_and_eq_iff)
  qed
  have N: "check_not ?tb ?nb [0..<ba_length t] \<longleftrightarrow> mask_zero (mask_and ?tb ?nb)"
    using len(3) by (auto simp: check_not_iff word_at_def ba_length_def mask_zero_and_iff)
  have O: "check_or ?tb ?ob [0..<ba_length t] \<longleftrightarrow> \<not> mask_zero (mask_and ?tb ?ob)"
    using len(2) by (auto simp: check_or_iff word_at_def ba_length_def mask_zero_and_iff)
  have Z: "getTruthyCount (qi_or q) > 0 \<longleftrightarrow> \<not> mask_zero ?ob"
    using getTruthyCount_zero_iff [of "qi_or q"] by auto
  show ?thesis
    unfolding isQueryMatch_def spec_is_match_def A N O Z getTruthyCount_zero_iff
    by auto
qed

theorem isQueryMatch_iff_spec_witness:
  "masks_aligned (ex_mask 1) (ex_query 1 0 0) \<and> no_sign_overlap (ex_mask 1) (ex_query 1 0 0)
   \<and> isQueryMatch (ex_mask 1) (ex_query 1 0 0)
   \<and> \<not> mask_zero (ba_buffer (ex_mask 1)) \<and> spec_is_match (ex_mask 1) (ex_query 1 0 0)"
proof -
  have h1: "masks_aligned (ex_mask 1) (ex_query 1 0 0)"
    by (simp add: masks_aligned_def ex_mask_def ex_query_def)
  have h2: "no_sign_overlap (ex_mask 1) (ex_query 1 0 0)"
    by (simp add: no_sign_overlap_def ex_mask_def ex_query_def)
  have h3: "\<not> mask_zero (ba_buffer (ex_mask 1)) \<and> spec_is_match (ex_mask 1) (ex_query 1 0 0)"
    by (simp add: spec_is_match_def mask_zero_def mask_and_def ex_mask_def ex_query_def)
  show ?thesis
    using h1 h2 h3 isQueryMatch_iff_spec [OF h1 h2] by simp
qed

text \<open>
  C1 as stated fails on the empty target: the root archetype's mask satisfies the three
  conditions for the query \<^verbatim>\<open>{ none: [A] }\<close>, and \<open>isQueryMatch\<close> returns false
  (\<^verbatim>\<open>// Empty targets should never match\<close>).
\<close>

theorem isQueryMatch_empty_target_counterexample:
  "spec_is_match (ex_mask 0) (ex_query 0 0 1) \<and> \<not> isQueryMatch (ex_mask 0) (ex_query 0 0 1)"
  by code_simp

text \<open>Where target and \<open>and\<close> mask share bit 31 (the component of id 31), the signed result
  of \<^verbatim>\<open>&\<close> differs from the unsigned mask word and the match is refused.\<close>

lemma isQueryMatch_bit31:
  "spec_is_match (ex_mask 0x80000000) (ex_query 0x80000000 0 0)
   \<and> \<not> isQueryMatch (ex_mask 0x80000000) (ex_query 0x80000000 0 0)"
  by code_simp

section \<open>Archetype membership\<close>

text \<open>
  C9. \<open>addEntity\<close> is idempotent and changes nothing for a member (so the entered bit is not
  set again); \<open>removeEntity\<close> changes nothing for a non-member (so the exited bit is not
  set); \<open>removeEntity\<close> of a member clears its entities bit and its entered bit.
\<close>

theorem Archetype_add_remove_noop:
  "(ba_get (a_entities a) e \<longrightarrow> addEntity a e = a)
   \<and> addEntity (addEntity a e) e = addEntity a e
   \<and> (\<not> ba_get (a_entities a) e \<longrightarrow> removeEntity a e = a)
   \<and> (ba_get (a_entities a) e \<longrightarrow>
        \<not> ba_get (a_entered (removeEntity a e)) e \<and> \<not> ba_get (a_entities (removeEntity a e)) e)"
proof -
  have "addEntity (addEntity a e) e = addEntity a e"
    by (simp add: addEntity_def ba_get_set ba_set_idem)
  then show ?thesis
    by (simp add: addEntity_def removeEntity_def ba_get_set)
qed

theorem Archetype_add_remove_noop_witness:
  "ba_get (a_entities (addEntity ex_root 0)) 0
   \<and> addEntity (addEntity ex_root 0) 0 = addEntity ex_root 0
   \<and> \<not> ba_get (a_entities (addEntity ex_root 0)) 1
   \<and> removeEntity (addEntity ex_root 0) 1 = addEntity ex_root 0
   \<and> \<not> ba_get (a_entered (removeEntity (addEntity ex_root 0) 0)) 0"
proof -
  have m: "ba_get (a_entities (addEntity ex_root 0)) 0"
    by code_simp
  have n: "\<not> ba_get (a_entities (addEntity ex_root 0)) 1"
    by code_simp
  show ?thesis
    using m n Archetype_add_remove_noop [of "addEntity ex_root 0" 0]
      Archetype_add_remove_noop [of "addEntity ex_root 0" 1]
    by simp
qed

section \<open>The storage proxy\<close>






text \<open>
  C10. A new proxy has cursor 0: a read before any assignment reads slot 0 of the field's
  view, a value-changing write stores to slot 0 and marks entity 0 as changed; assigning a
  negative value or one that is not below the capacity raises \<open>EntityNotFound\<close> and leaves
  the proxy as it was.
\<close>

theorem new_proxy_cursor:
  "sp_entity (StorageProxy_new capacity) = 0
   \<and> sp_read (StorageProxy_new capacity) storage F
       = (case map_of storage F of None \<Rightarrow> None | Some store \<Rightarrow> ta_get store 0)
   \<and> (map_of storage F = Some store \<and> ta_get store 0 \<noteq> Some v \<longrightarrow>
        sp_write (StorageProxy_new capacity) F v (storage, changed)
          = (AList.update F (ta_set store 0 v) storage, ba_set changed 0 True))
   \<and> (map_of storage F = Some store \<and> ta_get store 0 \<noteq> Some v \<and> ba_in_range changed 0 \<longrightarrow>
        ba_get (snd (sp_write (StorageProxy_new capacity) F v (storage, changed))) 0)
   \<and> (w < 0 \<or> w \<ge> int (sp_capacity p) \<longrightarrow> sp_set_entity p w = (Some EntityNotFoundError, p))"
  by (simp add: StorageProxy_new_def sp_read_def sp_write_def sp_set_entity_def ba_get_set
      split: option.split)

theorem new_proxy_cursor_witness:
  "sp_entity (StorageProxy_new 2) = 0
   \<and> sp_read (StorageProxy_new 2) ex_storage ''x'' = Some 0
   \<and> sp_write (StorageProxy_new 2) ''x'' 5 (ex_storage, BooleanArray_new 2)
       = (AList.update ''x'' (ta_set (TypedArray_new Uint8Array 2) 0 5) ex_storage,
          ba_set (BooleanArray_new 2) 0 True)
   \<and> ba_get (snd (sp_write (StorageProxy_new 2) ''x'' 5 (ex_storage, BooleanArray_new 2))) 0
   \<and> sp_set_entity (StorageProxy_new 2) 2 = (Some EntityNotFoundError, StorageProxy_new 2)
   \<and> sp_set_entity (StorageProxy_new 2) (- 1) = (Some EntityNotFoundError, StorageProxy_new 2)"
proof -
  have F: "map_of ex_storage ''x'' = Some (TypedArray_new Uint8Array 2)"
    by (simp add: ex_storage_def)
  have g: "ta_get (TypedArray_new Uint8Array 2) 0 = Some 0"
    "ta_get (TypedArray_new Uint8Array 2) 0 \<noteq> Some 5"
    by (simp_all add: ta_get_def TypedArray_new_def)
  have r: "ba_in_range (BooleanArray_new 2) 0" by simp
  have c: "(2::int) \<ge> int (sp_capacity (StorageProxy_new 2))"
    "(- 1::int) < 0"
    by (simp_all add: StorageProxy_new_def)
  note t1 = new_proxy_cursor [of 2 ex_storage "''x''" "TypedArray_new Uint8Array 2" 5
        "BooleanArray_new 2" 2 "StorageProxy_new 2"]
  note t2 = new_proxy_cursor [of 2 ex_storage "''x''" "TypedArray_new Uint8Array 2" 5
        "BooleanArray_new 2" "- 1" "StorageProxy_new 2"]
  have p1: "sp_entity (StorageProxy_new 2) = 0"
    using t1 by blast
  have "sp_read (StorageProxy_new 2) ex_storage ''x''
       = (case map_of ex_storage ''x'' of None \<Rightarrow> None | Some store \<Rightarrow> ta_get store 0)"
    using t1 by blast
  then have p2: "sp_read (StorageProxy_new 2) ex_storage ''x'' = Some 0"
    by (simp only: F g(1) option.case)
  have p3: "sp_write (StorageProxy_new 2) ''x'' 5 (ex_storage, BooleanArray_new 2)
       = (AList.update ''x'' (ta_set (TypedArray_new Uint8Array 2) 0 5) ex_storage,
          ba_set (BooleanArray_new 2) 0 True)"
    using t1 F g(2) by blast
  have p4: "ba_get (snd (sp_write (StorageProxy_new 2) ''x'' 5 (ex_storage, BooleanArray_new 2))) 0"
    using t1 F g(2) r by blast
  have p5: "sp_set_entity (StorageProxy_new 2) 2 = (Some EntityNotFoundError, StorageProxy_new 2)"
    using t1 c(1) by blast
  have p6: "sp_set_entity (StorageProxy_new 2) (- 1) = (Some EntityNotFoundError, StorageProxy_new 2)"
    using t2 c(2) by blast
  show ?thesis
    using p1 p2 p3 p4 p5 p6 by blast
qed

section \<open>The component manager\<close>

lemma entityHas_ByRef:
  "entityHas cm (ByRef c) e
     = (case map_of (cm_owners cm) c of None \<Rightarrow> False | Some owners \<Rightarrow> ba_get owners e)"
  by (simp add: entityHas_def)



lemma cm_inv_instance:
  assumes "cm_inv capacity cm" and "getInstance cm c = Some i"
  shows "\<exists>ob cb. map_of (cm_owners cm) (ci_type i) = Some ob \<and> ba_wf capacity ob
           \<and> map_of (cm_changed cm) (ci_type i) = Some cb \<and> ba_wf capacity cb"
proof -
  have "map_of (cm_registry cm) (ci_type i) \<noteq> None"
  proof (cases c)
    case (ByName n)
    with assms show ?thesis by (simp add: cm_inv_def getInstance_def)
  next
    case (ByRef c')
    with assms have "map_of (cm_registry cm) c' = Some i" by (simp add: getInstance_def)
    moreover from this assms(1) have "ci_type i = c'" by (simp add: cm_inv_def)
    ultimately show ?thesis by simp
  qed
  with assms(1) show ?thesis unfolding cm_inv_def by blast
qed

lemma cm_inv_register: "cm_inv capacity cm \<Longrightarrow> cm_inv capacity (cm_register capacity c cm)"
  unfolding cm_inv_def cm_register_def Let_def
  by (auto simp: update_conv' split: option.splits)

lemma cm_inv_fold_register:
  "cm_inv capacity cm \<Longrightarrow> cm_inv capacity (fold (cm_register capacity) cs cm)"
  by (induction cs arbitrary: cm) (simp_all add: cm_inv_register)

lemma cm_inv_new: "cm_inv capacity (ComponentManager_new capacity components)"
  unfolding ComponentManager_new_def
  by (rule cm_inv_fold_register) (simp add: cm_inv_def)

text \<open>The manager after a successful \<open>addToEntity\<close>, given the instance and its two arrays.\<close>

lemma addToEntity_Inr:
  assumes "getInstance cm c = Some i"
    and "map_of (cm_owners cm) (ci_type i) = Some ob"
    and "map_of (cm_changed cm) (ci_type i) = Some cb"
  shows "\<exists>cm'. addToEntity cm c e d = (Inr (getEntityComponentsDirect cm' e), cm')
     \<and> cm_owners cm' = AList.update (ci_type i) (ba_set ob e True) (cm_owners cm)
     \<and> cm_changed cm' = AList.update (ci_type i) (ba_set cb e True) (cm_changed cm)
     \<and> cm_registry cm' = cm_registry cm
     \<and> cm_registryByName cm' = cm_registryByName cm
     \<and> cm_proxies cm' = cm_proxies cm
     \<and> cm_buffer cm' =
          (case (d, ci_storage i, cm_storage cm i) of
             (Some data, Some key, Some storage) \<Rightarrow>
               AList.update key (write_fields data e storage) (cm_buffer cm)
           | _ \<Rightarrow> cm_buffer cm)"
  using assms
  by (simp add: addToEntity_def Let_def cm_storage_def split: option.split)





section \<open>The archetype manager keeps its invariant\<close>

lemma map_of_am_modify:
  "map_of (am_registry (am_modify k f am)) k'
     = (if k' = k then map_option f (map_of (am_registry am) k) else map_of (am_registry am) k')"
  by (simp add: am_modify_def update_conv' split: option.split)

lemma am_modify_fields [simp]:
  "am_entityArchetypes (am_modify k f am) = am_entityArchetypes am"
  "am_root (am_modify k f am) = am_root am"
  "am_capacity (am_modify k f am) = am_capacity am"
  "am_componentCount (am_modify k f am) = am_componentCount am"
  "am_queryArchetypes (am_modify k f am) = am_queryArchetypes am"
  by (simp_all add: am_modify_def split: option.split)

lemma addEntity_fields [simp]:
  "a_id (addEntity a e) = a_id a"
  "a_components (addEntity a e) = a_components a"
  "a_bitfield (addEntity a e) = a_bitfield a"
  "a_exited (addEntity a e) = a_exited a"
  "ba_wf n (a_entities (addEntity a e)) = ba_wf n (a_entities a)"
  by (simp_all add: addEntity_def)

lemma removeEntity_fields [simp]:
  "a_id (removeEntity a e) = a_id a"
  "a_components (removeEntity a e) = a_components a"
  "a_bitfield (removeEntity a e) = a_bitfield a"
  "ba_wf n (a_entities (removeEntity a e)) = ba_wf n (a_entities a)"
  by (simp_all add: removeEntity_def)

lemma entities_addEntity:
  "ba_get (a_entities (addEntity a e)) e' =
     (if e' = e then ba_in_range (a_entities a) e else ba_get (a_entities a) e')"
  by (auto simp: addEntity_def ba_get_set dest: ba_get_in_range)

lemma entities_removeEntity:
  "ba_get (a_entities (removeEntity a e)) e' = (e' \<noteq> e \<and> ba_get (a_entities a) e')"
  by (auto simp: removeEntity_def ba_get_set)

lemma js_array_set_nth:
  "i < length (js_array_set xs e v) \<Longrightarrow>
     js_array_set xs e v ! i = (if i = e then Some v else if i < length xs then xs ! i else None)"
  by (auto simp: js_array_set_def nth_append nth_list_update)

lemma js_array_set_length_ge: "length xs \<le> length (js_array_set xs e v)"
  by (simp add: js_array_set_def)

lemma js_array_set_length_gt: "e < length (js_array_set xs e v)"
  by (simp add: js_array_set_def)


lemma registry_move_entity:
  assumes ne: "js_array_get (am_entityArchetypes am) e \<noteq> Some k"
  shows "map_of (am_registry (move_entity am e k)) k' =
     (if k' = k then map_option (\<lambda>a. addEntity a e) (map_of (am_registry am) k)
      else if js_array_get (am_entityArchetypes am) e = Some k'
        then map_option (\<lambda>a. removeEntity a e) (map_of (am_registry am) k')
      else map_of (am_registry am) k')"
  using ne
  by (cases "js_array_get (am_entityArchetypes am) e")
     (auto simp: move_entity_def map_of_am_modify)

lemma move_entity_fields [simp]:
  "am_entityArchetypes (move_entity am e k) = js_array_set (am_entityArchetypes am) e k"
  "am_root (move_entity am e k) = am_root am"
  "am_capacity (move_entity am e k) = am_capacity am"
  "am_componentCount (move_entity am e k) = am_componentCount am"
  "am_queryArchetypes (move_entity am e k) = am_queryArchetypes am"
  by (simp_all add: move_entity_def split: option.split)

lemma am_inv_move:
  assumes inv: "am_inv cap am" and k: "map_of (am_registry am) k \<noteq> None"
    and ne: "js_array_get (am_entityArchetypes am) e \<noteq> Some k"
  shows "am_inv cap (move_entity am e k)"
proof -
  let ?am = "move_entity am e k"
  let ?ea = "am_entityArchetypes am"
  note reg = registry_move_entity [OF ne]
  from inv have root: "map_of (am_registry am) (am_root am) \<noteq> None"
    and capf: "am_capacity am = cap" and len: "cap \<le> length ?ea"
    and ids: "\<And>k a. map_of (am_registry am) k = Some a \<Longrightarrow> a_id a = k \<and> ba_wf cap (a_entities a)"
    and slots: "\<And>e k. e < length ?ea \<Longrightarrow> ?ea ! e = Some k \<Longrightarrow> map_of (am_registry am) k \<noteq> None"
    and mem: "\<And>e k a. e < cap \<Longrightarrow> map_of (am_registry am) k = Some a \<Longrightarrow>
                (ba_get (a_entities a) e \<longleftrightarrow> ?ea ! e = Some k)"
    unfolding am_inv_def by blast+
  have dom: "map_of (am_registry ?am) k' \<noteq> None \<longleftrightarrow> map_of (am_registry am) k' \<noteq> None" for k'
    by (simp add: reg)
  have 1: "map_of (am_registry ?am) (am_root ?am) \<noteq> None"
    using root dom by simp
  have 2: "am_capacity ?am = cap" using capf by simp
  have 3: "cap \<le> length (am_entityArchetypes ?am)"
    using len js_array_set_length_ge [of ?ea e k] by simp
  have 4: "a_id a = k' \<and> ba_wf cap (a_entities a)" if "map_of (am_registry ?am) k' = Some a" for k' a
    using that ids by (auto simp: reg split: if_splits)
  have 5: "map_of (am_registry ?am) k' \<noteq> None"
    if "e' < length (am_entityArchetypes ?am)" "am_entityArchetypes ?am ! e' = Some k'" for e' k'
  proof -
    from that have "(if e' = e then Some k else if e' < length ?ea then ?ea ! e' else None) = Some k'"
      by (simp add: js_array_set_nth)
    then have "map_of (am_registry am) k' \<noteq> None"
      using k slots by (auto split: if_splits)
    then show ?thesis using dom by simp
  qed
  have 6: "ba_get (a_entities a) e' \<longleftrightarrow> am_entityArchetypes ?am ! e' = Some k'"
    if e': "e' < cap" and a: "map_of (am_registry ?am) k' = Some a" for e' k' a
  proof -
    from e' len have l: "e' < length ?ea" by simp
    then have l': "e' < length (js_array_set ?ea e k)"
      using js_array_set_length_ge [of ?ea e k] by simp
    have slot: "am_entityArchetypes ?am ! e' = (if e' = e then Some k else ?ea ! e')"
      using l l' by (simp add: js_array_set_nth)
    have old: "js_array_get ?ea e' = ?ea ! e'" using l by (simp add: js_array_get_def)
    show ?thesis
    proof (cases "e' = e")
      case False
      from a obtain a0 where a0: "map_of (am_registry am) k' = Some a0"
        and same: "ba_get (a_entities a) e' = ba_get (a_entities a0) e'"
        using False
        by (auto simp: reg entities_addEntity entities_removeEntity split: if_splits)
      from mem [OF e' a0] same slot False show ?thesis by simp
    next
      case True
      note e_eq = True
      show ?thesis
      proof (cases "k' = k")
        case True
        with a obtain a0 where a0: "map_of (am_registry am) k = Some a0"
          and a_def: "a = addEntity a0 e"
          by (auto simp: reg)
        from ids [OF a0] e' e_eq have "ba_in_range (a_entities a0) e"
          by (auto simp: ba_wf_in_range)
        then show ?thesis using slot e_eq True a_def
          by (simp add: entities_addEntity)
      next
        case False
        show ?thesis
        proof (cases "js_array_get ?ea e = Some k'")
          case True
          with a False obtain a0 where "a = removeEntity a0 e"
            by (auto simp: reg)
          then show ?thesis using slot e_eq False
            by (simp add: entities_removeEntity)
        next
          case nk: False
          with a False have a0: "map_of (am_registry am) k' = Some a"
            by (simp add: reg)
          from mem [OF e' a0] nk old e_eq have "\<not> ba_get (a_entities a) e'" by simp
          then show ?thesis using slot e_eq False by simp
        qed
      qed
    qed
  qed
  show ?thesis
    unfolding am_inv_def using 1 2 3 4 5 6 by blast
qed


lemma am_modify_ea_commute:
  "am_modify k f (am\<lparr>am_entityArchetypes := xs\<rparr>) = (am_modify k f am)\<lparr>am_entityArchetypes := xs\<rparr>"
  by (simp add: am_modify_def split: option.split)

lemma ArchetypeManager_set_eq:
  "ArchetypeManager_set am k e =
     (if map_of (am_registry am) k = None then Inl NotRegisteredError
      else if e \<ge> length (am_entityArchetypes am) then Inl RangeError
      else if js_array_get (am_entityArchetypes am) e = Some k then Inr (k, am)
      else Inr (k, move_entity am e k))"
  by (auto simp: ArchetypeManager_set_def move_entity_def Let_def am_modify_ea_commute
      split: option.split)

lemma am_inv_set:
  assumes "am_inv cap am" and "ArchetypeManager_set am k e = Inr (k', am')"
  shows "am_inv cap am' \<and> k' = k \<and> am_entityArchetypes am' ! e = Some k
    \<and> length (am_entityArchetypes am') = length (am_entityArchetypes am)
    \<and> (\<forall>i. i \<noteq> e \<longrightarrow> am_entityArchetypes am' ! i = am_entityArchetypes am ! i)
    \<and> am_root am' = am_root am"
proof -
  from assms(2) have k: "map_of (am_registry am) k \<noteq> None"
    and e: "e < length (am_entityArchetypes am)"
    by (auto simp: ArchetypeManager_set_eq split: if_splits)
  show ?thesis
  proof (cases "js_array_get (am_entityArchetypes am) e = Some k")
    case True
    with assms k e show ?thesis
      by (auto simp: ArchetypeManager_set_eq js_array_get_def)
  next
    case False
    with assms(2) k e have am': "am' = move_entity am e k" and k': "k' = k"
      by (auto simp: ArchetypeManager_set_eq)
    from am_inv_move [OF assms(1) k False] am' k' e show ?thesis
      by (simp add: js_array_set_def)
  qed
qed

text \<open>Registering a new, empty archetype under an id no slot refers to.\<close>

lemma am_inv_new_archetype:
  assumes inv: "am_inv cap am" and fresh: "map_of (am_registry am) (ba_buffer bf) = None"
  shows "am_inv cap (am\<lparr>am_registry :=
            AList.update (ba_buffer bf) (Archetype_new (am_capacity am) cs (Some bf))
              (am_registry am)\<rparr>)"
proof -
  from inv have capf: "am_capacity am = cap"
    and slots: "\<And>e k. e < length (am_entityArchetypes am) \<Longrightarrow> am_entityArchetypes am ! e = Some k
                  \<Longrightarrow> map_of (am_registry am) k \<noteq> None"
    and len: "cap \<le> length (am_entityArchetypes am)"
    unfolding am_inv_def by blast+
  have noslot: "am_entityArchetypes am ! e \<noteq> Some (ba_buffer bf)" if "e < cap" for e
    using slots [of e "ba_buffer bf"] fresh len that by auto
  have new: "a_id (Archetype_new cap cs (Some bf)) = ba_buffer bf"
    "ba_wf cap (a_entities (Archetype_new cap cs (Some bf)))"
    "\<not> ba_get (a_entities (Archetype_new cap cs (Some bf))) e" for e
    by (simp_all add: Archetype_new_def)
  show ?thesis
    using inv noslot new capf unfolding am_inv_def
    by (auto simp: update_conv')
qed

lemma ArchetypeManager_update_cases:
  "ArchetypeManager_update am e cs =
     (let k = ba_buffer (update_bitfield (am_componentCount am) cs);
          am1 = (case map_of (am_registry am) k of
                   Some a \<Rightarrow> am
                 | None \<Rightarrow> am\<lparr>am_registry :=
                     AList.update k
                       (Archetype_new (am_capacity am) cs
                          (Some (update_bitfield (am_componentCount am) cs)))
                       (am_registry am)\<rparr>)
      in case js_array_get (am_entityArchetypes am) e of
           None \<Rightarrow> (k, move_entity am1 e k)
         | Some k0 \<Rightarrow>
             if map_option a_id (map_of (am_registry am) k0) = Some k then (k0, am)
             else (k, move_entity am1 e k))"
  by (auto simp: ArchetypeManager_update_def move_entity_def Let_def
      am_modify_def update_conv' split: option.split bool.split)

lemma am_inv_update:
  assumes inv: "am_inv cap am"
  shows "am_inv cap (snd (ArchetypeManager_update am e cs))"
proof -
  let ?bf = "update_bitfield (am_componentCount am) cs"
  let ?k = "ba_buffer ?bf"
  let ?am1 = "(case map_of (am_registry am) ?k of
                   Some a \<Rightarrow> am
                 | None \<Rightarrow> am\<lparr>am_registry :=
                     AList.update ?k (Archetype_new (am_capacity am) cs (Some ?bf))
                       (am_registry am)\<rparr>)"
  have inv1: "am_inv cap ?am1"
    using inv am_inv_new_archetype [OF inv, of ?bf cs]
    by (simp split: option.split)
  have k1: "map_of (am_registry ?am1) ?k \<noteq> None"
    by (simp add: update_conv' split: option.split)
  have ea1: "am_entityArchetypes ?am1 = am_entityArchetypes am"
    by (simp split: option.split)
  from inv have ids: "\<And>k a. map_of (am_registry am) k = Some a \<Longrightarrow> a_id a = k"
    and slots: "\<And>e k. e < length (am_entityArchetypes am) \<Longrightarrow> am_entityArchetypes am ! e = Some k
                  \<Longrightarrow> map_of (am_registry am) k \<noteq> None"
    unfolding am_inv_def by blast+
  show ?thesis
  proof (cases "js_array_get (am_entityArchetypes am) e")
    case None
    then have ne: "js_array_get (am_entityArchetypes ?am1) e \<noteq> Some ?k"
      by (simp add: ea1)
    from None have "snd (ArchetypeManager_update am e cs) = move_entity ?am1 e ?k"
      by (simp add: ArchetypeManager_update_cases Let_def)
    with am_inv_move [OF inv1 k1 ne] show ?thesis
      by simp
  next
    case (Some k0)
    then have "e < length (am_entityArchetypes am)" "am_entityArchetypes am ! e = Some k0"
      by (auto simp: js_array_get_def split: if_splits)
    from slots [OF this] obtain a0 where a0: "map_of (am_registry am) k0 = Some a0" by auto
    show ?thesis
    proof (cases "map_option a_id (map_of (am_registry am) k0) = Some ?k")
      case True
      with Some inv a0 show ?thesis
        by (simp add: ArchetypeManager_update_cases Let_def)
    next
      case False
      with a0 ids [OF a0] have "k0 \<noteq> ?k" by auto
      with Some have ne: "js_array_get (am_entityArchetypes ?am1) e \<noteq> Some ?k"
        by (simp add: ea1)
      from Some False a0 have "snd (ArchetypeManager_update am e cs) = move_entity ?am1 e ?k"
        by (simp add: ArchetypeManager_update_cases Let_def)
      with am_inv_move [OF inv1 k1 ne] show ?thesis
        by simp
    qed
  qed
qed


lemma list_update_same_Some: "i < length xs \<Longrightarrow> xs ! i = Some v \<Longrightarrow> js_array_set xs i v = xs"
  by (simp add: js_array_set_def list_update_same_conv)

lemma init_loop_inv:
  assumes "am_inv cap am" and "\<forall>i\<in>set is. i < cap"
  shows "\<exists>am'. init_loop am is = (None, am') \<and> am_inv cap am' \<and> am_root am' = am_root am
     \<and> length (am_entityArchetypes am') = length (am_entityArchetypes am)
     \<and> (\<forall>j. j \<in> set is \<longrightarrow> am_entityArchetypes am' ! j = Some (am_root am))
     \<and> (\<forall>j. j \<notin> set is \<longrightarrow> am_entityArchetypes am' ! j = am_entityArchetypes am ! j)"
  using assms
proof (induction "is" arbitrary: am)
  case Nil
  then show ?case by simp
next
  case (Cons i "is")
  from Cons.prems have root: "map_of (am_registry am) (am_root am) \<noteq> None"
    and len: "cap \<le> length (am_entityArchetypes am)" and i: "i < cap"
    unfolding am_inv_def by auto
  from root i len have "\<exists>k1 am1. ArchetypeManager_set am (am_root am) i = Inr (k1, am1)"
    by (simp add: ArchetypeManager_set_eq)
  then obtain k1 am1 where
    s: "ArchetypeManager_set am (am_root am) i = Inr (k1, am1)"
    by blast
  from am_inv_set [OF Cons.prems(1) s] have
    inv1: "am_inv cap am1" and k1: "k1 = am_root am"
    and slot: "am_entityArchetypes am1 ! i = Some (am_root am)"
    and l1: "length (am_entityArchetypes am1) = length (am_entityArchetypes am)"
    and other: "\<And>j. j \<noteq> i \<Longrightarrow> am_entityArchetypes am1 ! j = am_entityArchetypes am ! j"
    and r1: "am_root am1 = am_root am"
    by auto
  from i len l1 have "i < length (am_entityArchetypes am1)" by simp
  with slot k1 have same: "am1\<lparr>am_entityArchetypes := js_array_set (am_entityArchetypes am1) i k1\<rparr> = am1"
    by (simp add: list_update_same_Some)
  from Cons.prems(2) have "\<forall>i\<in>set is. i < cap" by simp
  from Cons.IH [OF inv1 this] obtain am' where
    l: "init_loop am1 is = (None, am')" and inv': "am_inv cap am'"
    and r': "am_root am' = am_root am1"
    and l': "length (am_entityArchetypes am') = length (am_entityArchetypes am1)"
    and in': "\<And>j. j \<in> set is \<Longrightarrow> am_entityArchetypes am' ! j = Some (am_root am1)"
    and out': "\<And>j. j \<notin> set is \<Longrightarrow> am_entityArchetypes am' ! j = am_entityArchetypes am1 ! j"
    by blast
  have "init_loop am (i # is) = (None, am')"
    using s same l by simp
  moreover have "am_entityArchetypes am' ! j = Some (am_root am)" if "j \<in> set (i # is)" for j
    using that in' [of j] out' [of j] slot r1 by (cases "j \<in> set is") auto
  moreover have "am_entityArchetypes am' ! j = am_entityArchetypes am ! j" if "j \<notin> set (i # is)" for j
    using that out' [of j] other [of j] by auto
  ultimately show ?case
    using inv' r' r1 l' l1 by auto
qed

lemma am_inv_truncate:
  assumes "am_inv cap am"
  shows "am_inv cap (am\<lparr>am_entityArchetypes := js_array_set_length (am_entityArchetypes am) cap\<rparr>)"
proof -
  from assms have len: "cap \<le> length (am_entityArchetypes am)"
    and slots: "\<And>e k. e < length (am_entityArchetypes am) \<Longrightarrow> am_entityArchetypes am ! e = Some k
                  \<Longrightarrow> map_of (am_registry am) k \<noteq> None"
    unfolding am_inv_def by blast+
  have t: "js_array_set_length (am_entityArchetypes am) cap = take cap (am_entityArchetypes am)"
    using len by (simp add: js_array_set_length_def)
  have "map_of (am_registry am) k \<noteq> None"
    if "e < cap" "take cap (am_entityArchetypes am) ! e = Some k" for e k
    using that len slots [of e k] by simp
  then show ?thesis
    using assms unfolding am_inv_def t
    by (auto simp: min_def)
qed

lemma ArchetypeManager_init_inv:
  assumes "am_inv cap am"
  shows "\<exists>am'. ArchetypeManager_init am = (None, am') \<and> am_inv cap am'
     \<and> (\<forall>e<cap. am_entityArchetypes am' ! e = Some (am_root am))
     \<and> am_root am' = am_root am"
proof -
  let ?am0 = "am\<lparr>am_entityArchetypes := js_array_set_length (am_entityArchetypes am) cap\<rparr>"
  from assms have capf: "am_capacity am = cap" unfolding am_inv_def by simp
  have "\<forall>i\<in>set [0..<cap]. i < cap" by simp
  from init_loop_inv [OF am_inv_truncate [OF assms] this] capf show ?thesis
    by (auto simp: ArchetypeManager_init_def)
qed

section \<open>Refresh\<close>

lemma isCandidate_cache: "\<exists>c. snd (isCandidate a q) = a\<lparr>a_candidateCache := c\<rparr>"
proof (cases "map_of (a_candidateCache a) (qi_id q)")
  case None
  then show ?thesis by (auto simp: isCandidate_def Let_def)
next
  case (Some b)
  then have "snd (isCandidate a q) = a\<lparr>a_candidateCache := a_candidateCache a\<rparr>"
    by (simp add: isCandidate_def)
  then show ?thesis by blast
qed

lemma refresh_queries_shape:
  "\<exists>c qs' qa'. refresh_queries a qs qa = (a\<lparr>a_candidateCache := c\<rparr>, qs', qa')
      \<and> length qs' = length qs"
proof (induction qs arbitrary: a qa)
  case Nil
  have "a = a\<lparr>a_candidateCache := a_candidateCache a\<rparr>" by simp
  then show ?case by (metis refresh_queries.simps(1))
next
  case (Cons q qs)
  obtain b a1 where c: "isCandidate a q = (b, a1)" by (cases "isCandidate a q")
  with isCandidate_cache [of a q] obtain c1 where a1: "a1 = a\<lparr>a_candidateCache := c1\<rparr>" by auto
  obtain q1 qa1 where p: "(if b \<and> getPopulationCount a1 > 0
             then (q\<lparr>qi_archetypes := set_add (a_id a1) (qi_archetypes q)\<rparr>,
                   AList.update (qi_id q)
                     (set_add (a_id a1)
                        (case map_of qa (qi_id q) of None \<Rightarrow> [] | Some s \<Rightarrow> s)) qa)
             else (q, qa)) = (q1, qa1)"
    by (metis surj_pair)
  from Cons.IH [of a1 qa1] obtain c2 qs2 qa2 where
    r: "refresh_queries a1 qs qa1 = (a1\<lparr>a_candidateCache := c2\<rparr>, qs2, qa2)"
    and l: "length qs2 = length qs"
    by blast
  have "refresh_queries a (q # qs) qa = (a\<lparr>a_candidateCache := c2\<rparr>, q1 # qs2, qa2)"
    using c p r a1 by (auto simp: Let_def split: if_splits)
  then show ?case using l by auto
qed

lemma refresh_archetypes_shape:
  "\<exists>reg' qs' qa'. refresh_archetypes reg qs qa = (reg', qs', qa')
      \<and> list_all2 (\<lambda>(k, a) (k', a'). k' = k \<and> refreshed a a') reg reg'
      \<and> length qs' = length qs"
proof (induction reg arbitrary: qs qa)
  case Nil
  then show ?case by simp
next
  case (Cons ka reg)
  obtain k a where ka: "ka = (k, a)" by (cases ka)
  from refresh_queries_shape [of a qs qa] obtain c qs1 qa1 where
    q: "refresh_queries a qs qa = (a\<lparr>a_candidateCache := c\<rparr>, qs1, qa1)"
    and l1: "length qs1 = length qs"
    by blast
  from Cons.IH [of qs1 qa1] obtain reg2 qs2 qa2 where
    r: "refresh_archetypes reg qs1 qa1 = (reg2, qs2, qa2)"
    and all: "list_all2 (\<lambda>(k, a) (k', a'). k' = k \<and> refreshed a a') reg reg2"
    and l2: "length qs2 = length qs1"
    by blast
  have "refresh_archetypes (ka # reg) qs qa
      = ((k, Archetype_refresh (a\<lparr>a_candidateCache := c\<rparr>)) # reg2, qs2, qa2)"
    using ka q r by simp
  moreover have "refreshed a (Archetype_refresh (a\<lparr>a_candidateCache := c\<rparr>))"
    unfolding refreshed_def by blast
  ultimately show ?case
    using all l1 l2 ka by auto
qed

lemma map_of_refreshed:
  "list_all2 (\<lambda>(k, a) (k', a'). k' = k \<and> refreshed a a') reg reg' \<Longrightarrow>
     rel_option refreshed (map_of reg k) (map_of reg' k)"
  by (induction reg reg' rule: list_all2_induct) auto

lemma refreshed_fields:
  assumes "refreshed a a'"
  shows "a_id a' = a_id a" "a_entities a' = a_entities a" "a_components a' = a_components a"
    "a_bitfield a' = a_bitfield a" "\<not> ba_get (a_entered a') e" "\<not> ba_get (a_exited a') e"
  using assms by (auto simp: refreshed_def Archetype_refresh_def)

lemma ArchetypeManager_refresh_shape:
  "\<exists>am' qs'. ArchetypeManager_refresh am qs = (am', qs')
     \<and> (\<forall>k. rel_option refreshed (map_of (am_registry am) k) (map_of (am_registry am') k))
     \<and> am_entityArchetypes am' = am_entityArchetypes am \<and> am_root am' = am_root am
     \<and> am_capacity am' = am_capacity am \<and> am_componentCount am' = am_componentCount am
     \<and> length qs' = length qs"
proof -
  let ?qa0 = "fold (\<lambda>q qa. AList.update (qi_id q) [] qa) qs []"
  let ?qs0 = "map (\<lambda>q. q\<lparr>qi_archetypes := []\<rparr>) qs"
  from refresh_archetypes_shape [of "am_registry am" ?qs0 ?qa0] obtain reg' qs' qa' where
    r: "refresh_archetypes (am_registry am) ?qs0 ?qa0 = (reg', qs', qa')"
    and all: "list_all2 (\<lambda>(k, a) (k', a'). k' = k \<and> refreshed a a') (am_registry am) reg'"
    and l: "length qs' = length ?qs0"
    by blast
  have "ArchetypeManager_refresh am qs = (am\<lparr>am_registry := reg', am_queryArchetypes := qa'\<rparr>, qs')"
    using r by (simp add: ArchetypeManager_refresh_def Let_def)
  with map_of_refreshed [OF all] l show ?thesis by auto
qed

lemma am_inv_refreshed:
  assumes inv: "am_inv cap am"
    and reg: "\<forall>k. rel_option refreshed (map_of (am_registry am) k) (map_of (am_registry am') k)"
    and same: "am_entityArchetypes am' = am_entityArchetypes am" "am_root am' = am_root am"
      "am_capacity am' = am_capacity am"
  shows "am_inv cap am'"
proof -
  have bk: "\<exists>a. map_of (am_registry am) k = Some a \<and> refreshed a a'"
    if "map_of (am_registry am') k = Some a'" for k a'
    using reg [rule_format, of k] that by (auto elim: option.rel_cases)
  have fw: "map_of (am_registry am') k \<noteq> None" if "map_of (am_registry am) k \<noteq> None" for k
    using reg [rule_format, of k] that by (auto elim: option.rel_cases)
  from inv have root: "map_of (am_registry am) (am_root am) \<noteq> None"
    and capf: "am_capacity am = cap" and len: "cap \<le> length (am_entityArchetypes am)"
    and ids: "\<And>k a. map_of (am_registry am) k = Some a \<Longrightarrow> a_id a = k \<and> ba_wf cap (a_entities a)"
    and slots: "\<And>e k. e < length (am_entityArchetypes am) \<Longrightarrow> am_entityArchetypes am ! e = Some k
                  \<Longrightarrow> map_of (am_registry am) k \<noteq> None"
    and mem: "\<And>e k a. e < cap \<Longrightarrow> map_of (am_registry am) k = Some a \<Longrightarrow>
                (ba_get (a_entities a) e \<longleftrightarrow> am_entityArchetypes am ! e = Some k)"
    unfolding am_inv_def by blast+
  have 1: "map_of (am_registry am') (am_root am') \<noteq> None"
    using fw [OF root] same by simp
  have 4: "a_id a' = k \<and> ba_wf cap (a_entities a')" if "map_of (am_registry am') k = Some a'" for k a'
    using bk [OF that] ids by (auto simp: refreshed_fields)
  have 5: "map_of (am_registry am') k \<noteq> None"
    if "e < length (am_entityArchetypes am')" "am_entityArchetypes am' ! e = Some k" for e k
    using that slots [of e k] fw [of k] same by simp
  have 6: "ba_get (a_entities a') e \<longleftrightarrow> am_entityArchetypes am' ! e = Some k"
    if "e < cap" "map_of (am_registry am') k = Some a'" for e k a'
    using bk [OF that(2)] mem [OF that(1)] same by (auto simp: refreshed_fields)
  show ?thesis
    unfolding am_inv_def using 1 4 5 6 capf len same by auto
qed

section \<open>The component manager keeps its invariant\<close>

lemma cm_inv_frame:
  assumes inv: "cm_inv cap cm"
    and reg: "cm_registry cm' = cm_registry cm" "cm_registryByName cm' = cm_registryByName cm"
    and own: "\<And>c b. map_of (cm_owners cm) c = Some b \<Longrightarrow> ba_wf cap b \<Longrightarrow>
                \<exists>b'. map_of (cm_owners cm') c = Some b' \<and> ba_wf cap b'"
    and chg: "\<And>c b. map_of (cm_changed cm) c = Some b \<Longrightarrow> ba_wf cap b \<Longrightarrow>
                \<exists>b'. map_of (cm_changed cm') c = Some b' \<and> ba_wf cap b'"
  shows "cm_inv cap cm'"
proof -
  from inv have t: "\<And>c i. map_of (cm_registry cm) c = Some i \<Longrightarrow> ci_type i = c"
    and n: "\<And>n i. map_of (cm_registryByName cm) n = Some i \<Longrightarrow>
             map_of (cm_registry cm) (ci_type i) \<noteq> None"
    and o: "\<And>c. map_of (cm_registry cm) c \<noteq> None \<Longrightarrow>
             \<exists>b. map_of (cm_owners cm) c = Some b \<and> ba_wf cap b"
    and c: "\<And>c. map_of (cm_registry cm) c \<noteq> None \<Longrightarrow>
             \<exists>b. map_of (cm_changed cm) c = Some b \<and> ba_wf cap b"
    unfolding cm_inv_def by blast+
  have o': "\<exists>b. map_of (cm_owners cm') c = Some b \<and> ba_wf cap b"
    if "map_of (cm_registry cm) c \<noteq> None" for c
    using o [OF that] own by blast
  have c': "\<exists>b. map_of (cm_changed cm') c = Some b \<and> ba_wf cap b"
    if "map_of (cm_registry cm) c \<noteq> None" for c
    using c [OF that] chg by blast
  show ?thesis
    unfolding cm_inv_def reg using t n o' c' by blast
qed

lemma cm_inv_addToEntity:
  assumes "cm_inv cap cm"
  shows "cm_inv cap (snd (addToEntity cm c e d))"
proof (cases "getInstance cm c")
  case None
  with assms show ?thesis by (simp add: addToEntity_def)
next
  case (Some i)
  from cm_inv_instance [OF assms Some] obtain ob cb where
    ob: "map_of (cm_owners cm) (ci_type i) = Some ob" and
    cb: "map_of (cm_changed cm) (ci_type i) = Some cb"
    by blast
  from addToEntity_Inr [OF Some ob cb, of e d] obtain cm' where
    r: "addToEntity cm c e d = (Inr (getEntityComponentsDirect cm' e), cm')" and
    o: "cm_owners cm' = AList.update (ci_type i) (ba_set ob e True) (cm_owners cm)" and
    ch: "cm_changed cm' = AList.update (ci_type i) (ba_set cb e True) (cm_changed cm)" and
    reg: "cm_registry cm' = cm_registry cm" "cm_registryByName cm' = cm_registryByName cm"
    by blast
  have "cm_inv cap cm'"
    by (rule cm_inv_frame [OF assms reg]) (use ob cb in \<open>auto simp: o ch update_conv'\<close>)
  with r show ?thesis by simp
qed

lemma removeFromEntity_fields:
  "cm_registry (snd (removeFromEntity cm c e)) = cm_registry cm"
  "cm_registryByName (snd (removeFromEntity cm c e)) = cm_registryByName cm"
  "cm_buffer (snd (removeFromEntity cm c e)) = cm_buffer cm"
  "cm_proxies (snd (removeFromEntity cm c e)) = cm_proxies cm"
  by (simp_all add: removeFromEntity_def Let_def split: option.split)

lemma removeFromEntity_arrays:
  "map_of (cm_owners (snd (removeFromEntity cm c e))) c'
     = (case getInstance cm c of
          None \<Rightarrow> map_of (cm_owners cm) c'
        | Some i \<Rightarrow> if c' = ci_type i
                     then map_option (\<lambda>b. ba_set b e False) (map_of (cm_owners cm) c')
                     else map_of (cm_owners cm) c')"
  "map_of (cm_changed (snd (removeFromEntity cm c e))) c'
     = (case getInstance cm c of
          None \<Rightarrow> map_of (cm_changed cm) c'
        | Some i \<Rightarrow> if c' = ci_type i
                     then map_option (\<lambda>b. ba_set b e False) (map_of (cm_changed cm) c')
                     else map_of (cm_changed cm) c')"
  by (auto simp: removeFromEntity_def Let_def update_conv' split: option.split)

lemma cm_inv_removeFromEntity:
  assumes "cm_inv cap cm"
  shows "cm_inv cap (snd (removeFromEntity cm c e))"
  by (rule cm_inv_frame [OF assms])
    (auto simp: removeFromEntity_fields removeFromEntity_arrays split: option.split)

lemma map_of_map_clear:
  "map_of (map (\<lambda>(c, b). (c, ba_clear b)) xs) k = map_option ba_clear (map_of xs k)"
  by (induction xs) auto

lemma cm_inv_refresh:
  assumes "cm_inv cap cm"
  shows "cm_inv cap (ComponentManager_refresh cm)"
  by (rule cm_inv_frame [OF assms])
    (auto simp: ComponentManager_refresh_def map_of_map_clear)

lemma cm_inv_setEntityData:
  assumes "cm_inv cap cm"
  shows "cm_inv cap (setEntityData cm c e d)"
  by (rule cm_inv_frame [OF assms])
    (auto simp: setEntityData_def split: option.split prod.split)

lemma cm_inv_proxy_set_entity:
  assumes "cm_inv cap cm"
  shows "cm_inv cap (snd (proxy_set_entity cm c v))"
  by (rule cm_inv_frame [OF assms])
    (auto simp: proxy_set_entity_def Let_def split: option.split prod.split)

lemma sp_write_changed:
  "snd (sp_write p key v (st, ch)) = ch \<or> snd (sp_write p key v (st, ch)) = ba_set ch (sp_entity p) True"
  by (simp add: sp_write_def split: option.split)

lemma proxy_write_cases:
  obtains (same) "proxy_write cm c key v = cm"
  | (wrote) i :: ComponentInstance and p skey storage changed where
      "map_of (cm_changed cm) (ci_type i) = Some changed"
      "proxy_write cm c key v =
         cm\<lparr>cm_buffer := AList.update skey (fst (sp_write p key v (storage, changed))) (cm_buffer cm),
            cm_changed := AList.update (ci_type i) (snd (sp_write p key v (storage, changed)))
                            (cm_changed cm)\<rparr>"
proof (cases "getInstance cm c")
  case None
  then show ?thesis by (intro same) (simp add: proxy_write_def)
next
  case i: (Some i)
  show ?thesis
  proof (cases "map_of (cm_proxies cm) (ci_name i)")
    case None
    with i show ?thesis by (intro same) (simp add: proxy_write_def)
  next
    case p: (Some p)
    show ?thesis
    proof (cases "ci_storage i")
      case None
      with i p show ?thesis by (intro same) (simp add: proxy_write_def)
    next
      case k: (Some skey)
      show ?thesis
      proof (cases "cm_storage cm i")
        case None
        with i p k show ?thesis by (intro same) (simp add: proxy_write_def)
      next
        case s: (Some storage)
        show ?thesis
        proof (cases "map_of (cm_changed cm) (ci_type i)")
          case None
          with i p k s show ?thesis by (intro same) (simp add: proxy_write_def)
        next
          case (Some changed)
          with i p k s have "proxy_write cm c key v =
            cm\<lparr>cm_buffer := AList.update skey (fst (sp_write p key v (storage, changed))) (cm_buffer cm),
               cm_changed := AList.update (ci_type i) (snd (sp_write p key v (storage, changed)))
                               (cm_changed cm)\<rparr>"
            by (simp add: proxy_write_def split_beta)
          with Some show ?thesis by (rule wrote)
        qed
      qed
    qed
  qed
qed

lemma cm_inv_proxy_write:
  assumes "cm_inv cap cm"
  shows "cm_inv cap (proxy_write cm c key v)"
proof (cases rule: proxy_write_cases [of cm c key v])
  case same
  with assms show ?thesis by simp
next
  case (wrote i p skey storage changed)
  have wf: "ba_wf cap changed \<Longrightarrow> ba_wf cap (snd (sp_write p key v (storage, changed)))"
    using sp_write_changed [of p key v storage changed] by auto
  show ?thesis
    unfolding wrote(2)
    by (rule cm_inv_frame [OF assms]) (use wrote(1) wf in \<open>auto simp: update_conv'\<close>)
qed

section \<open>The world keeps its invariant\<close>

lemma World_refresh_not_initialized:
  "w_state w \<noteq> Initialized \<Longrightarrow> World_refresh w r = (Some WorldStateError, w)"
  by (simp add: World_refresh_def assertWorldState_def)

lemma World_refresh_initialized:
  assumes "w_state w = Initialized"
  obtains w' where "World_refresh w r = (None, w')"
    and "w_state w' = Initialized"
    and "w_entityManager w' = w_entityManager w"
    and "w_componentManager w' =
           (if r then w_componentManager w else ComponentManager_refresh (w_componentManager w))"
    and "\<And>k. rel_option refreshed (map_of (am_registry (w_archetypeManager w)) k)
                 (map_of (am_registry (w_archetypeManager w')) k)"
    and "am_entityArchetypes (w_archetypeManager w') = am_entityArchetypes (w_archetypeManager w)"
    and "am_root (w_archetypeManager w') = am_root (w_archetypeManager w)"
    and "am_capacity (w_archetypeManager w') = am_capacity (w_archetypeManager w)"
    and "qm_lastQueryVersion (w_queryManager w') = qm_lastQueryVersion (w_queryManager w)"
    and "qc_globalVersion (qm_cache (w_queryManager w'))
           = qc_globalVersion (qm_cache (w_queryManager w)) + 1"
    and "qc_entityCache (qm_cache (w_queryManager w')) = qc_entityCache (qm_cache (w_queryManager w))"
    and "qm_idsByQuery (w_queryManager w') = qm_idsByQuery (w_queryManager w)"
proof -
  let ?qm = "w_queryManager w"
  from ArchetypeManager_refresh_shape [of "w_archetypeManager w" "map snd (qm_instancesByID ?qm)"]
  obtain am' qs' where
    r: "ArchetypeManager_refresh (w_archetypeManager w) (map snd (qm_instancesByID ?qm)) = (am', qs')"
    and reg: "\<forall>k. rel_option refreshed (map_of (am_registry (w_archetypeManager w)) k)
                 (map_of (am_registry am') k)"
    and same: "am_entityArchetypes am' = am_entityArchetypes (w_archetypeManager w)"
      "am_root am' = am_root (w_archetypeManager w)"
      "am_capacity am' = am_capacity (w_archetypeManager w)"
    by blast
  let ?w' = "w\<lparr>w_archetypeManager := am',
      w_componentManager :=
        (if \<not> r then ComponentManager_refresh (w_componentManager w) else w_componentManager w),
      w_queryManager :=
        QueryManager_invalidate
          (?qm\<lparr>qm_instancesByID := zip (map fst (qm_instancesByID ?qm)) qs'\<rparr>) None\<rparr>"
  have "World_refresh w r = (None, ?w')"
    using assms r by (simp add: World_refresh_def assertWorldState_def Let_def)
  then show ?thesis
    using assms reg same
    by (intro that [of ?w']) (simp_all add: QueryManager_invalidate_def QueryCache_invalidate_def)
qed

lemma w_capacity_simps [simp]:
  "w_capacity (w\<lparr>w_archetypeManager := am\<rparr>) = w_capacity w"
  "w_capacity (w\<lparr>w_componentManager := cm\<rparr>) = w_capacity w"
  "w_capacity (w\<lparr>w_queryManager := qm\<rparr>) = w_capacity w"
  "w_capacity (w\<lparr>w_state := s\<rparr>) = w_capacity w"
  by (simp_all add: w_capacity_def)

lemma world_inv_refresh:
  assumes "world_inv w"
  shows "world_inv (snd (World_refresh w r))"
proof (cases "w_state w = Initialized")
  case False
  with assms show ?thesis by (simp add: World_refresh_not_initialized)
next
  case True
  from assms have am: "am_inv (w_capacity w) (w_archetypeManager w)"
    and cm: "cm_inv (w_capacity w) (w_componentManager w)"
    and v: "version_inv (w_queryManager w)"
    and sl: "\<forall>e < w_capacity w. am_entityArchetypes (w_archetypeManager w) ! e \<noteq> None"
    using True unfolding world_inv_def by blast+
  from World_refresh_initialized [OF True, of r] obtain w' where
    r: "World_refresh w r = (None, w')"
    and st: "w_state w' = Initialized"
    and em: "w_entityManager w' = w_entityManager w"
    and cm': "w_componentManager w' =
           (if r then w_componentManager w else ComponentManager_refresh (w_componentManager w))"
    and reg: "\<And>k. rel_option refreshed (map_of (am_registry (w_archetypeManager w)) k)
                 (map_of (am_registry (w_archetypeManager w')) k)"
    and same: "am_entityArchetypes (w_archetypeManager w') = am_entityArchetypes (w_archetypeManager w)"
      "am_root (w_archetypeManager w') = am_root (w_archetypeManager w)"
      "am_capacity (w_archetypeManager w') = am_capacity (w_archetypeManager w)"
    and lv: "qm_lastQueryVersion (w_queryManager w') = qm_lastQueryVersion (w_queryManager w)"
    and gv: "qc_globalVersion (qm_cache (w_queryManager w'))
           = qc_globalVersion (qm_cache (w_queryManager w)) + 1"
    by metis
  have cap: "w_capacity w' = w_capacity w" using em by (simp add: w_capacity_def)
  have "am_inv (w_capacity w) (w_archetypeManager w')"
    using am_inv_refreshed [OF am _ same] reg by blast
  moreover have "cm_inv (w_capacity w) (w_componentManager w')"
    using cm cm' cm_inv_refresh by simp
  moreover have "version_inv (w_queryManager w')"
    using v lv gv unfolding version_inv_def by (metis trans_le_add1)
  ultimately show ?thesis
    using r sl same(1) cap unfolding world_inv_def by simp
qed


lemma world_inv_cm:
  assumes "world_inv w" and "cm_inv (w_capacity w) cm"
  shows "world_inv (w\<lparr>w_componentManager := cm\<rparr>)"
  using assms unfolding world_inv_def by simp

lemma world_inv_init:
  assumes "world_inv w"
  shows "world_inv (snd (World_init w))"
proof (cases "w_state w = Uninitialized")
  case False
  with assms show ?thesis by (simp add: World_init_def assertWorldState_def)
next
  case True
  from assms have am: "am_inv (w_capacity w) (w_archetypeManager w)"
    and cm: "cm_inv (w_capacity w) (w_componentManager w)"
    and v: "version_inv (w_queryManager w)"
    unfolding world_inv_def by blast+
  from ArchetypeManager_init_inv [OF am] obtain am' where
    i: "ArchetypeManager_init (w_archetypeManager w) = (None, am')"
    and am': "am_inv (w_capacity w) am'"
    and sl: "\<forall>e<w_capacity w. am_entityArchetypes am' ! e = Some (am_root (w_archetypeManager w))"
    by blast
  let ?w1 = "w\<lparr>w_archetypeManager := am', w_state := Initialized\<rparr>"
  have inv1: "world_inv ?w1"
    using am' cm v sl unfolding world_inv_def by simp
  have st1: "w_state ?w1 = Initialized" by simp
  from World_refresh_initialized [OF st1, of False] obtain w' where
    r: "World_refresh ?w1 False = (None, w')" and st: "w_state w' = Initialized"
    by metis
  from world_inv_refresh [OF inv1, of False] r have "world_inv w'" by simp
  moreover have "World_init w = (None, w')"
    using True i r st by (simp add: World_init_def assertWorldState_def)
  ultimately show ?thesis by simp
qed

lemma world_inv_destroy:
  assumes "world_inv w"
  shows "world_inv (snd (World_destroy w))"
  using assms unfolding world_inv_def
  by (simp add: World_destroy_def assertWorldState_def)

lemma bp_size_acquire [simp]: "bp_size (snd (bp_acquire p)) = bp_size p"
  by (simp add: bp_acquire_def bp_size_def split: list.split)

lemma bp_size_release [simp]: "bp_size (bp_release p i) = bp_size p"
  by (simp add: bp_release_def bp_size_def)

lemma em_capacity_create [simp]: "em_capacity (snd (EntityManager_create em)) = em_capacity em"
  using bp_size_acquire [of "em_pool em"]
  by (simp add: EntityManager_create_def em_capacity_def split_beta)

lemma World_create_fields [simp]:
  "w_archetypeManager (snd (World_create w)) = w_archetypeManager w"
  "w_componentManager (snd (World_create w)) = w_componentManager w"
  "w_queryManager (snd (World_create w)) = w_queryManager w"
  "w_state (snd (World_create w)) = w_state w"
  "w_capacity (snd (World_create w)) = w_capacity w"
  by (simp_all add: World_create_def split_beta w_capacity_def)

lemma world_inv_create:
  assumes "world_inv w"
  shows "world_inv (snd (World_create w))"
  using assms unfolding world_inv_def by simp

lemma cm_inv_fold_remove:
  "cm_inv cap cm \<Longrightarrow>
     cm_inv cap (fold (\<lambda>ci cm. snd (removeFromEntity cm (ByRef (ci_type ci)) e)) cs cm)"
  by (induction cs arbitrary: cm) (simp_all add: cm_inv_removeFromEntity)

lemma version_inv_invalidate:
  "version_inv qm \<Longrightarrow> version_inv (QueryManager_invalidate qm q)"
  unfolding version_inv_def
  by (auto simp: QueryManager_invalidate_def QueryCache_invalidate_def update_conv'
      split: option.splits intro: le_SucI)

lemma world_inv_destroyEntity:
  assumes "world_inv w"
  shows "world_inv (snd (destroyEntity w e))"
proof -
  let ?cs = "(case getEntityArchetype (w_archetypeManager w) e of
               None \<Rightarrow> []
             | Some k \<Rightarrow>
                 (case map_of (am_registry (w_archetypeManager w)) k of
                    None \<Rightarrow> []
                  | Some archetype \<Rightarrow> a_components archetype))"
  let ?cm = "fold (\<lambda>ci cm. snd (removeFromEntity cm (ByRef (ci_type ci)) e)) ?cs
               (w_componentManager w)"
  let ?w1 = "w\<lparr>w_componentManager := ?cm\<rparr>"
  from assms have cm: "cm_inv (w_capacity w) (w_componentManager w)"
    unfolding world_inv_def by blast
  have inv1: "world_inv ?w1"
    by (rule world_inv_cm [OF assms cm_inv_fold_remove [OF cm]])
  show ?thesis
  proof (cases "ArchetypeManager_reset (w_archetypeManager w) e")
    case (Inl err)
    with inv1 show ?thesis by (simp add: destroyEntity_def Let_def)
  next
    case (Inr am')
    then obtain k where s: "ArchetypeManager_set (w_archetypeManager w)
        (am_root (w_archetypeManager w)) e = Inr (k, am')"
      by (auto simp: ArchetypeManager_reset_def split: sum.splits)
    from inv1 have am: "am_inv (w_capacity w) (w_archetypeManager w)"
      unfolding world_inv_def by simp
    from am_inv_set [OF am s] have am': "am_inv (w_capacity w) am'"
      and slot: "am_entityArchetypes am' ! e = Some (am_root (w_archetypeManager w))"
      and other: "\<forall>i. i \<noteq> e \<longrightarrow> am_entityArchetypes am' ! i
                    = am_entityArchetypes (w_archetypeManager w) ! i"
      by auto
    have sl: "am_entityArchetypes am' ! i \<noteq> None"
      if "am_entityArchetypes (w_archetypeManager w) ! i \<noteq> None" for i
      using that slot other by (cases "i = e") auto
    let ?w2 = "?w1\<lparr>w_archetypeManager := am'\<rparr>"
    have inv2: "world_inv ?w2"
      using inv1 am' sl unfolding world_inv_def by simp
    show ?thesis
    proof (cases "EntityManager_destroy (w_entityManager w) e")
      case (Inl err)
      with Inr inv2 show ?thesis by (simp add: destroyEntity_def Let_def)
    next
      case em: (Inr em')
      then have cap: "em_capacity em' = em_capacity (w_entityManager w)"
        by (auto simp: EntityManager_destroy_def em_capacity_def split: if_splits)
      have "world_inv (?w2\<lparr>w_entityManager := em',
          w_queryManager := QueryManager_invalidate (w_queryManager w) None\<rparr>)"
        using inv2 cap version_inv_invalidate [of "w_queryManager w" None]
        unfolding world_inv_def by (simp add: w_capacity_def)
      with Inr em show ?thesis by (simp add: destroyEntity_def Let_def)
    qed
  qed
qed

lemma update_slots:
  assumes "cap \<le> length (am_entityArchetypes am)"
    and "\<forall>e<cap. am_entityArchetypes am ! e \<noteq> None"
  shows "\<forall>e<cap. am_entityArchetypes (snd (ArchetypeManager_update am e0 cs)) ! e \<noteq> None"
proof -
  have "am_entityArchetypes (snd (ArchetypeManager_update am e0 cs)) = am_entityArchetypes am
    \<or> (\<exists>k. am_entityArchetypes (snd (ArchetypeManager_update am e0 cs))
            = js_array_set (am_entityArchetypes am) e0 k)"
    by (auto simp: ArchetypeManager_update_cases Let_def split: option.splits)
  then show ?thesis
    using assms by (auto simp: js_array_set_def nth_list_update nth_append)
qed

text \<open>After the component manager and the archetype manager have been brought up to date,
  \<^verbatim>\<open>addComponentToEntity\<close> and \<^verbatim>\<open>removeComponentFromEntity\<close> end alike.\<close>

lemma world_inv_update_then_refresh:
  assumes inv: "world_inv w" and cm: "cm_inv (w_capacity w) cm'"
  shows "world_inv (snd
    (let (a, am') = ArchetypeManager_update (w_archetypeManager w) e cs;
         w1 = w\<lparr>w_componentManager := cm', w_archetypeManager := am'\<rparr>
     in if w_state w1 = Initialized then World_refresh w1 True else (None, w1)))"
proof -
  let ?am' = "snd (ArchetypeManager_update (w_archetypeManager w) e cs)"
  let ?w1 = "w\<lparr>w_componentManager := cm', w_archetypeManager := ?am'\<rparr>"
  from inv have am: "am_inv (w_capacity w) (w_archetypeManager w)"
    unfolding world_inv_def by blast
  then have len: "w_capacity w \<le> length (am_entityArchetypes (w_archetypeManager w))"
    unfolding am_inv_def by blast
  have inv1: "world_inv ?w1"
    using inv cm am_inv_update [OF am, of e cs] update_slots [OF len, of e cs]
    unfolding world_inv_def by simp
  show ?thesis
    using inv1 world_inv_refresh [OF inv1, of True]
    by (simp add: split_beta Let_def)
qed

lemma world_inv_add:
  assumes "world_inv w"
  shows "world_inv (snd (addComponentToEntity w c e d))"
proof (cases "getComponentByName w c")
  case (Inl err)
  with assms show ?thesis by (simp add: addComponentToEntity_def)
next
  case (Inr c')
  from assms have cm: "cm_inv (w_capacity w) (w_componentManager w)"
    unfolding world_inv_def by blast
  obtain res cm' where a: "addToEntity (w_componentManager w) (ByRef c') e d = (res, cm')"
    by (cases "addToEntity (w_componentManager w) (ByRef c') e d")
  with cm_inv_addToEntity [OF cm, of "ByRef c'" e d] have cm': "cm_inv (w_capacity w) cm'"
    by simp
  show ?thesis
  proof (cases res)
    case (Inl err)
    with Inr a world_inv_cm [OF assms cm'] show ?thesis
      by (simp add: addComponentToEntity_def)
  next
    case res: (Inr insts)
    from world_inv_update_then_refresh [OF assms cm', of e insts] Inr a res show ?thesis
      by (simp add: addComponentToEntity_def)
  qed
qed

lemma world_inv_remove:
  assumes "world_inv w"
  shows "world_inv (snd (removeComponentFromEntity w c e))"
proof (cases "getComponentByName w c")
  case (Inl err)
  with assms show ?thesis by (simp add: removeComponentFromEntity_def)
next
  case (Inr c')
  from assms have cm: "cm_inv (w_capacity w) (w_componentManager w)"
    unfolding world_inv_def by blast
  obtain instances cm' where a: "removeFromEntity (w_componentManager w) (ByRef c') e = (instances, cm')"
    by (cases "removeFromEntity (w_componentManager w) (ByRef c') e")
  with cm_inv_removeFromEntity [OF cm, of "ByRef c'" e] have cm': "cm_inv (w_capacity w) cm'"
    by simp
  from world_inv_update_then_refresh [OF assms cm', of e instances] Inr a show ?thesis
    by (simp add: removeComponentFromEntity_def)
qed


lemma world_inv_qm:
  assumes "world_inv w" and "version_inv qm"
  shows "world_inv (w\<lparr>w_queryManager := qm\<rparr>)"
  using assms unfolding world_inv_def by simp

lemma world_inv_register:
  assumes "world_inv w"
  shows "world_inv (snd (World_register w q))"
proof -
  let ?qm = "w_queryManager w"
  let ?existing = "(case map_of (qm_idsByQuery ?qm) q of
                        None \<Rightarrow> None
                      | Some queryId \<Rightarrow> map_of (qm_instancesByID ?qm) queryId)"
  show ?thesis
  proof (cases ?existing)
    case (Some i)
    with assms show ?thesis by (simp add: World_register_def Let_def)
  next
    case None
    let ?instance = "createQueryInstance (getInstances (w_componentManager w))
                       (cm_count (w_componentManager w)) q"
    let ?qm1 = "?qm\<lparr>qm_idsByQuery := AList.update q (qi_id ?instance) (qm_idsByQuery ?qm),
                     qm_instancesByID :=
                       AList.update (qi_id ?instance) ?instance (qm_instancesByID ?qm)\<rparr>"
    let ?w1 = "w\<lparr>w_queryManager := ?qm1\<rparr>"
    from assms have "version_inv ?qm" unfolding world_inv_def by blast
    then have "version_inv ?qm1" unfolding version_inv_def by simp
    from world_inv_qm [OF assms this] have inv1: "world_inv ?w1" .
    show ?thesis
    proof (cases "w_state w = Initialized")
      case False
      with None inv1 show ?thesis by (simp add: World_register_def Let_def)
    next
      case True
      then have "w_state ?w1 = Initialized" by simp
      from World_refresh_initialized [OF this, of True] obtain w2 where
        r: "World_refresh ?w1 True = (None, w2)" by metis
      from world_inv_refresh [OF inv1, of True] r have "world_inv w2" by simp
      with None True r show ?thesis
        by (simp add: World_register_def Let_def split: option.split)
    qed
  qed
qed

lemma getEntities_version [simp]:
  "qc_globalVersion (fst (snd (QueryCache_getEntities c pv k f lv))) = qc_globalVersion c"
  by (simp add: QueryCache_getEntities_def Let_def split_beta split: option.split)

lemma getComponents_version [simp]:
  "qc_globalVersion (snd (QueryCache_getComponents c k f lv)) = qc_globalVersion c"
  by (simp add: QueryCache_getComponents_def Let_def split: option.split)

lemma version_inv_seen:
  assumes "version_inv qm" and "qc_globalVersion c = qc_globalVersion (qm_cache qm)"
    and "qm_cache qm' = c"
    and "qm_lastQueryVersion qm' = AList.update k (qc_globalVersion c) (qm_lastQueryVersion qm)"
  shows "version_inv qm'"
  using assms unfolding version_inv_def by (auto simp: update_conv')

lemma world_inv_getEntities:
  assumes "world_inv w"
  shows "world_inv (snd (getEntitiesFromQuery w q))"
proof -
  obtain res w1 where r: "World_register w q = (res, w1)" by (cases "World_register w q")
  with world_inv_register [OF assms, of q] have inv1: "world_inv w1" by simp
  show ?thesis
  proof (cases res)
    case (Inl err)
    with r inv1 show ?thesis by (simp add: getEntitiesFromQuery_def)
  next
    case (Inr inst)
    from inv1 have v: "version_inv (w_queryManager w1)" unfolding world_inv_def by blast
    let ?qm = "w_queryManager w1"
    let ?r = "QueryCache_getEntities (qm_cache ?qm) (qm_pool ?qm, qm_visited ?qm) (qi_id inst)
                (compute_entities (w_archetypeManager w1) inst) (lastVersion ?qm (qi_id inst))"
    let ?qm' = "?qm\<lparr>qm_cache := fst (snd ?r), qm_pool := fst (snd (snd ?r)),
                     qm_visited := snd (snd (snd ?r)),
                     qm_lastQueryVersion :=
                       AList.update (qi_id inst) (qc_globalVersion (fst (snd ?r)))
                         (qm_lastQueryVersion ?qm)\<rparr>"
    have "version_inv ?qm'"
      by (rule version_inv_seen [OF v, of "fst (snd ?r)" _ "qi_id inst"]) simp_all
    from world_inv_qm [OF inv1 this] r Inr show ?thesis
      by (simp add: getEntitiesFromQuery_def Let_def split_beta)
  qed
qed

lemma world_inv_getComponents:
  assumes "world_inv w"
  shows "world_inv (snd (getComponentsFromQuery w q))"
proof -
  obtain res w1 where r: "World_register w q = (res, w1)" by (cases "World_register w q")
  with world_inv_register [OF assms, of q] have inv1: "world_inv w1" by simp
  show ?thesis
  proof (cases res)
    case (Inl err)
    with r inv1 show ?thesis by (simp add: getComponentsFromQuery_def)
  next
    case (Inr inst)
    from inv1 have v: "version_inv (w_queryManager w1)" unfolding world_inv_def by blast
    let ?qm = "w_queryManager w1"
    let ?r = "QueryCache_getComponents (qm_cache ?qm) (qi_id inst) (qi_components inst)
                (lastVersion ?qm (qi_id inst))"
    let ?qm' = "?qm\<lparr>qm_cache := snd ?r,
                     qm_lastQueryVersion :=
                       AList.update (qi_id inst) (qc_globalVersion (snd ?r))
                         (qm_lastQueryVersion ?qm)\<rparr>"
    have "version_inv ?qm'"
      by (rule version_inv_seen [OF v, of "snd ?r" _ "qi_id inst"]) simp_all
    from world_inv_qm [OF inv1 this] r Inr show ?thesis
      by (simp add: getComponentsFromQuery_def Let_def split_beta)
  qed
qed

lemma World_queryDelta_world: "snd (World_queryDelta f w q) = snd (World_register w q)"
  by (simp add: World_queryDelta_def split: prod.split sum.split option.split)

lemma world_inv_step:
  assumes "world_inv w"
  shows "world_inv (World_step w op)"
proof (cases op)
  case (SetEntityData c e d)
  from assms have "cm_inv (w_capacity w) (w_componentManager w)" unfolding world_inv_def by blast
  from world_inv_cm [OF assms cm_inv_setEntityData [OF this]] SetEntityData show ?thesis by simp
next
  case (ProxySetEntity c v)
  from assms have "cm_inv (w_capacity w) (w_componentManager w)" unfolding world_inv_def by blast
  from world_inv_cm [OF assms cm_inv_proxy_set_entity [OF this]] ProxySetEntity show ?thesis by simp
next
  case (ProxyWrite c key v)
  from assms have "cm_inv (w_capacity w) (w_componentManager w)" unfolding world_inv_def by blast
  from world_inv_cm [OF assms cm_inv_proxy_write [OF this]] ProxyWrite show ?thesis by simp
next
  case (Invalidate q)
  from assms have "version_inv (w_queryManager w)" unfolding world_inv_def by blast
  from world_inv_qm [OF assms version_inv_invalidate [OF this]] Invalidate show ?thesis by simp
qed (use assms in \<open>simp_all add: world_inv_init world_inv_destroy world_inv_refresh
      world_inv_create world_inv_destroyEntity world_inv_add world_inv_remove
      world_inv_register world_inv_getEntities world_inv_getComponents
      queryEnteredEntities_def queryExitedEntities_def World_queryDelta_world\<close>)

lemma am_inv_new: "am_inv capacity (ArchetypeManager_new capacity n)"
  unfolding am_inv_def
  by (auto simp: ArchetypeManager_new_def Archetype_new_def Let_def)

lemma World_new_fields:
  assumes "World_new mc valid spec = Inr w"
  shows "w_archetypeManager w = ArchetypeManager_new (ws_capacity spec) (length (ws_components spec))"
    "w_componentManager w = ComponentManager_new (ws_capacity spec) (ws_components spec)"
    "w_entityManager w = \<lparr>em_pool = BitPool_new (ws_capacity spec)\<rparr>"
    "w_queryManager w = QueryManager_new (ws_capacity spec)"
    "w_state w = Uninitialized"
    "w_capacity w = ws_capacity spec"
    "0 < ws_capacity spec"
  using assms
  by (auto simp: World_new_def EntityManager_new_def w_capacity_def em_capacity_def bp_size_def
      BitPool_new_def isValidWorldSpec_def isPositiveUint32_def split: if_splits)

lemma world_inv_new:
  assumes "World_new mc valid spec = Inr w"
  shows "world_inv w"
  unfolding world_inv_def World_new_fields [OF assms]
  by (simp add: am_inv_new cm_inv_new version_inv_def QueryManager_new_def QueryCache_new_def)

lemma reachable_inv: "reachable w \<Longrightarrow> world_inv w"
  by (induction rule: reachable.induct) (auto intro: world_inv_new world_inv_step)

section \<open>Reachable worlds\<close>

lemma reachable_run: "reachable w \<Longrightarrow> reachable (run w ops)"
  unfolding run_def
  by (induction ops arbitrary: w) (simp_all add: reachable_step)

lemma ex_world0_new: "World_new MAX_UINT32 (\<lambda>_. True) ex_spec = Inr ex_world0"
  by (simp add: World_new_def isValidWorldSpec_def isPositiveUint32_def isUint32_def
      MAX_UINT32_def ex_spec_def ex_world0_def EntityManager_new_def numeral_2_eq_2)

lemma reachable_ex_world0: "reachable ex_world0"
  by (rule reachable_new [OF ex_world0_new])

lemma reachable_ex_world: "reachable ex_world"
  unfolding ex_world_def by (rule reachable_step [OF reachable_ex_world0])

lemma isActive_less: "isActive em e \<Longrightarrow> e < em_capacity em"
  by (simp add: isActive_def isEntity_def)







section \<open>Creating and destroying entities\<close>

lemma bp_acquire_full:
  assumes "\<forall>i<bp_size p. bp_isOccupied p i"
  shows "bp_acquire p = (- 1, p)" and "bp_occupiedCount p = bp_size p"
proof -
  from assms have all: "\<forall>i<length (bp_bits p). bp_bits p ! i"
    by (simp add: bp_isOccupied_def bp_size_def)
  then have "filter (\<lambda>i. \<not> bp_bits p ! i) [0..<bp_size p] = []"
    by (simp add: bp_size_def filter_empty_conv)
  then show "bp_acquire p = (- 1, p)" by (simp add: bp_acquire_def)
  from all have "\<forall>b\<in>set (bp_bits p). b" by (auto simp: in_set_conv_nth)
  then have "filter (\<lambda>b. b) (bp_bits p) = bp_bits p" by (simp add: filter_id_conv)
  then show "bp_occupiedCount p = bp_size p" by (simp add: bp_occupiedCount_def bp_size_def)
qed

lemma bp_acquire_Some:
  assumes "bp_acquire p = (x, p')" and "x \<noteq> - 1"
  shows "\<exists>i. x = int i \<and> i < bp_size p \<and> \<not> bp_isOccupied p i \<and> bp_isOccupied p' i
    \<and> bp_size p' = bp_size p \<and> (\<forall>j. bp_isOccupied p j \<longrightarrow> bp_isOccupied p' j)"
proof (cases "filter (\<lambda>i. \<not> bp_bits p ! i) [0..<bp_size p]")
  case Nil
  with assms show ?thesis by (simp add: bp_acquire_def)
next
  case (Cons i rest)
  then have "i \<in> set (filter (\<lambda>i. \<not> bp_bits p ! i) [0..<bp_size p])" by simp
  then have i: "i < bp_size p" "\<not> bp_bits p ! i" by auto
  from Cons assms have "x = int i" "p' = p\<lparr>bp_bits := (bp_bits p)[i := True]\<rparr>"
    by (simp_all add: bp_acquire_def)
  with i show ?thesis by (auto simp: bp_isOccupied_def bp_size_def nth_list_update)
qed

lemma bp_acquire_after_release:
  assumes "i < bp_size p"
  shows "fst (bp_acquire (bp_release p i)) \<noteq> - 1"
proof -
  let ?p = "bp_release p i"
  from assms have "filter (\<lambda>j. \<not> bp_bits ?p ! j) [0..<bp_size ?p] \<noteq> []"
    by (auto simp: filter_empty_conv bp_release_def bp_size_def intro!: bexI [of _ i])
  then obtain j rest where "filter (\<lambda>j. \<not> bp_bits ?p ! j) [0..<bp_size ?p] = j # rest"
    by (auto simp: neq_Nil_conv)
  then show ?thesis by (simp add: bp_acquire_def)
qed

lemma World_create_Some:
  assumes "fst (World_create w) = Some a"
  shows "a < w_capacity w \<and> \<not> bp_isOccupied (em_pool (w_entityManager w)) a
    \<and> bp_isOccupied (em_pool (w_entityManager (snd (World_create w)))) a
    \<and> (\<forall>j. bp_isOccupied (em_pool (w_entityManager w)) j \<longrightarrow>
           bp_isOccupied (em_pool (w_entityManager (snd (World_create w)))) j)"
proof -
  obtain x p' where acq: "bp_acquire (em_pool (w_entityManager w)) = (x, p')"
    by (cases "bp_acquire (em_pool (w_entityManager w))")
  with assms have x: "x \<noteq> - 1" "a = nat x"
    by (auto simp: World_create_def EntityManager_create_def split: if_splits)
  from bp_acquire_Some [OF acq x(1)] x(2) acq show ?thesis
    by (auto simp: World_create_def EntityManager_create_def w_capacity_def em_capacity_def)
qed

lemma destroyEntity_active:
  assumes inv: "world_inv w" and act: "isActive (w_entityManager w) e"
  shows "fst (destroyEntity w e) = None
    \<and> w_entityManager (snd (destroyEntity w e))
        = (w_entityManager w)\<lparr>em_pool := bp_release (em_pool (w_entityManager w)) e\<rparr>"
proof -
  from act have e: "e < w_capacity w" and ent: "isEntity (w_entityManager w) e"
    by (simp_all add: w_capacity_def isActive_less isActive_def)
  from inv have root: "map_of (am_registry (w_archetypeManager w)) (am_root (w_archetypeManager w)) \<noteq> None"
    and len: "w_capacity w \<le> length (am_entityArchetypes (w_archetypeManager w))"
    unfolding world_inv_def am_inv_def by blast+
  from root e len have "\<exists>am'. ArchetypeManager_reset (w_archetypeManager w) e = Inr am'"
    by (auto simp: ArchetypeManager_reset_def ArchetypeManager_set_eq)
  then obtain am' where "ArchetypeManager_reset (w_archetypeManager w) e = Inr am'"
    by blast
  with ent show ?thesis
    by (simp add: destroyEntity_def Let_def EntityManager_destroy_def)
qed

text \<open>
  C7. In a reachable world: when every id of the pool is occupied, \<^verbatim>\<open>create()\<close> answers
  \<^verbatim>\<open>undefined\<close> and changes nothing, and no id is available; an id that \<^verbatim>\<open>create()\<close>
  returns is below the capacity, was free and is occupied afterwards, and \<^verbatim>\<open>create()\<close> frees
  no id, so that successive calls return different ids; and destroying an active entity raises nothing and lets the
  next \<^verbatim>\<open>create()\<close> succeed.
\<close>

theorem create_until_exhausted:
  assumes "reachable w"
  shows "((\<forall>i<w_capacity w. bp_isOccupied (em_pool (w_entityManager w)) i) \<longrightarrow>
            World_create w = (None, w) \<and> getAvailableCount (w_entityManager w) = 0)
    \<and> (\<forall>a. fst (World_create w) = Some a \<longrightarrow>
            a < w_capacity w \<and> \<not> bp_isOccupied (em_pool (w_entityManager w)) a
            \<and> bp_isOccupied (em_pool (w_entityManager (snd (World_create w)))) a
            \<and> (\<forall>j. bp_isOccupied (em_pool (w_entityManager w)) j \<longrightarrow>
                   bp_isOccupied (em_pool (w_entityManager (snd (World_create w)))) j))
    \<and> (\<forall>a b. fst (World_create w) = Some a
              \<and> fst (World_create (snd (World_create w))) = Some b \<longrightarrow> a \<noteq> b)
    \<and> (isActive (w_entityManager w) e \<longrightarrow>
          fst (destroyEntity w e) = None
          \<and> (\<exists>e'. fst (World_create (snd (destroyEntity w e))) = Some e'))"
proof -
  from reachable_inv [OF assms] have inv: "world_inv w" .
  let ?p = "em_pool (w_entityManager w)"
  have A: "World_create w = (None, w) \<and> getAvailableCount (w_entityManager w) = 0"
    if "\<forall>i<w_capacity w. bp_isOccupied ?p i"
  proof -
    from that have full: "\<forall>i<bp_size ?p. bp_isOccupied ?p i"
      by (simp add: w_capacity_def em_capacity_def)
    from bp_acquire_full [OF full] show ?thesis
      by (simp add: World_create_def EntityManager_create_def getAvailableCount_def
          em_capacity_def)
  qed
  have B: "a < w_capacity w \<and> \<not> bp_isOccupied ?p a
            \<and> bp_isOccupied (em_pool (w_entityManager (snd (World_create w)))) a
            \<and> (\<forall>j. bp_isOccupied ?p j \<longrightarrow>
                   bp_isOccupied (em_pool (w_entityManager (snd (World_create w)))) j)"
    if "fst (World_create w) = Some a" for a
    using World_create_Some [OF that] .
  have C: "a \<noteq> b"
    if "fst (World_create w) = Some a" "fst (World_create (snd (World_create w))) = Some b" for a b
    using World_create_Some [OF that(1)] World_create_Some [OF that(2)] by auto
  have D: "fst (destroyEntity w e) = None
          \<and> (\<exists>e'. fst (World_create (snd (destroyEntity w e))) = Some e')"
    if act: "isActive (w_entityManager w) e"
  proof -
    from act have e: "e < bp_size ?p"
      using isActive_less [OF act] by (simp add: em_capacity_def)
    from destroyEntity_active [OF inv act] have n: "fst (destroyEntity w e) = None"
      and em: "w_entityManager (snd (destroyEntity w e))
        = (w_entityManager w)\<lparr>em_pool := bp_release ?p e\<rparr>"
      by simp_all
    from bp_acquire_after_release [OF e]
    have "\<exists>e'. fst (World_create (snd (destroyEntity w e))) = Some e'"
      by (simp add: World_create_def EntityManager_create_def em split_beta)
    with n show ?thesis by simp
  qed
  show ?thesis
    using A B C D by blast
qed

theorem create_until_exhausted_witness:
  "fst (World_create ex_world) = Some 0
   \<and> fst (World_create (run ex_world [Create])) = Some 1
   \<and> (0::nat) \<noteq> 1
   \<and> bp_isOccupied (em_pool (w_entityManager (run ex_world [Create, Create]))) 0
   \<and> bp_isOccupied (em_pool (w_entityManager (run ex_world [Create, Create]))) 1
   \<and> World_create (run ex_world [Create, Create]) = (None, run ex_world [Create, Create])
   \<and> getAvailableCount (w_entityManager (run ex_world [Create, Create])) = 0
   \<and> isActive (w_entityManager (run ex_world [Create, Create])) 0
   \<and> fst (destroyEntity (run ex_world [Create, Create]) 0) = None
   \<and> (\<exists>e'. fst (World_create (snd (destroyEntity (run ex_world [Create, Create]) 0))) = Some e')"
proof -
  have r: "reachable (run ex_world [Create, Create])"
    by (rule reachable_run [OF reachable_ex_world])
  have c: "w_capacity (run ex_world [Create, Create]) = 2"
    by code_simp
  have o: "bp_isOccupied (em_pool (w_entityManager (run ex_world [Create, Create]))) 0"
    "bp_isOccupied (em_pool (w_entityManager (run ex_world [Create, Create]))) 1"
    by code_simp+
  have full: "\<forall>i<w_capacity (run ex_world [Create, Create]).
      bp_isOccupied (em_pool (w_entityManager (run ex_world [Create, Create]))) i"
    unfolding c using o by (auto simp: less_2_cases_iff)
  have a: "isActive (w_entityManager (run ex_world [Create, Create])) 0"
    by code_simp
  have s: "fst (World_create ex_world) = Some 0"
    "fst (World_create (snd (World_create ex_world))) = Some 1"
    "snd (World_create ex_world) = run ex_world [Create]"
    by code_simp+
  note t = create_until_exhausted [OF r, of 0]
  note t0 = create_until_exhausted [OF reachable_ex_world, of 0]
  have ne: "(0::nat) \<noteq> 1" using t0 s(1,2) by blast
  show ?thesis
    using t full a o s ne by auto
qed

section \<open>Adding and removing a component in an initialized world\<close>

lemma initialized_slot:
  assumes inv: "world_inv w" and st: "w_state w = Initialized" and e: "e < w_capacity w"
  shows "\<exists>k a. getEntityArchetype (w_archetypeManager w) e = Some k
           \<and> map_of (am_registry (w_archetypeManager w)) k = Some a
           \<and> ba_get (a_entities a) e"
proof -
  let ?am = "w_archetypeManager w"
  from inv have len: "w_capacity w \<le> length (am_entityArchetypes ?am)"
    and slots: "\<And>e k. e < length (am_entityArchetypes ?am) \<Longrightarrow> am_entityArchetypes ?am ! e = Some k
                \<Longrightarrow> map_of (am_registry ?am) k \<noteq> None"
    and mem: "\<And>e k a. e < w_capacity w \<Longrightarrow> map_of (am_registry ?am) k = Some a \<Longrightarrow>
              (ba_get (a_entities a) e \<longleftrightarrow> am_entityArchetypes ?am ! e = Some k)"
    and some: "am_entityArchetypes ?am ! e \<noteq> None"
    using st e unfolding world_inv_def am_inv_def by blast+
  from some obtain k where k: "am_entityArchetypes ?am ! e = Some k" by auto
  from e len have el: "e < length (am_entityArchetypes ?am)" by simp
  from slots [OF el k] obtain a where a: "map_of (am_registry ?am) k = Some a" by auto
  have "getEntityArchetype ?am e = Some k"
    using el k by (simp add: getEntityArchetype_def js_array_get_def)
  moreover have "ba_get (a_entities a) e" using mem [OF e a] k by simp
  ultimately show ?thesis using a by blast
qed

lemma update_refresh_initialized:
  assumes st: "w_state w = Initialized"
  shows "\<exists>w'. (let (a, am') = ArchetypeManager_update (w_archetypeManager w) e cs;
                   w1 = w\<lparr>w_componentManager := cm', w_archetypeManager := am'\<rparr>
               in if w_state w1 = Initialized then World_refresh w1 True else (None, w1))
              = (None, w')
          \<and> w_state w' = Initialized
          \<and> w_componentManager w' = cm'
          \<and> w_entityManager w' = w_entityManager w
          \<and> (\<forall>k a x. map_of (am_registry (w_archetypeManager w')) k = Some a \<longrightarrow>
                \<not> ba_get (a_entered a) x \<and> \<not> ba_get (a_exited a) x)"
proof -
  let ?w1 = "w\<lparr>w_componentManager := cm',
      w_archetypeManager := snd (ArchetypeManager_update (w_archetypeManager w) e cs)\<rparr>"
  from st have st1: "w_state ?w1 = Initialized" by simp
  from World_refresh_initialized [OF st1, of True] obtain w' where
    r: "World_refresh ?w1 True = (None, w')"
    and s: "w_state w' = Initialized"
    and em: "w_entityManager w' = w_entityManager ?w1"
    and cm: "w_componentManager w' = w_componentManager ?w1"
    and reg: "\<And>k. rel_option refreshed (map_of (am_registry (w_archetypeManager ?w1)) k)
                 (map_of (am_registry (w_archetypeManager w')) k)"
    by (metis (full_types))
  have cl: "\<not> ba_get (a_entered a) x \<and> \<not> ba_get (a_exited a) x"
    if "map_of (am_registry (w_archetypeManager w')) k = Some a" for k a x
  proof -
    from reg [of k] that obtain a0 where "refreshed a0 a"
      by (cases "map_of (am_registry (w_archetypeManager ?w1)) k") auto
    from refreshed_fields(5,6) [OF this] show ?thesis by simp
  qed
  have "(let (a, am') = ArchetypeManager_update (w_archetypeManager w) e cs;
             w1 = w\<lparr>w_componentManager := cm', w_archetypeManager := am'\<rparr>
         in if w_state w1 = Initialized then World_refresh w1 True else (None, w1))
        = (None, w')"
    using st r by (simp add: split_beta Let_def)
  with s em cm cl show ?thesis by auto
qed

lemma add_initialized:
  assumes inv: "world_inv w" and st: "w_state w = Initialized"
    and reg: "isRegistered (w_componentManager w) (ByRef c)" and e: "e < w_capacity w"
  shows "\<exists>w'. addComponentToEntity w (ByRef c) e d = (None, w')
          \<and> world_inv w' \<and> w_state w' = Initialized \<and> w_capacity w' = w_capacity w
          \<and> isRegistered (w_componentManager w') (ByRef c)
          \<and> entityHas (w_componentManager w') (ByRef c) e
          \<and> changedBit (w_componentManager w') c e
          \<and> (\<forall>k a x. map_of (am_registry (w_archetypeManager w')) k = Some a \<longrightarrow>
                \<not> ba_get (a_entered a) x \<and> \<not> ba_get (a_exited a) x)"
proof -
  let ?cm = "w_componentManager w"
  from inv have cm: "cm_inv (w_capacity w) ?cm" unfolding world_inv_def by blast
  from reg obtain i where i: "getInstance ?cm (ByRef c) = Some i"
    by (auto simp: isRegistered_def)
  with cm have t: "ci_type i = c" by (simp add: cm_inv_def getInstance_def)
  from cm_inv_instance [OF cm i] t obtain ob cb where
    ob: "map_of (cm_owners ?cm) c = Some ob" "ba_wf (w_capacity w) ob" and
    cb: "map_of (cm_changed ?cm) c = Some cb" "ba_wf (w_capacity w) cb"
    by auto
  from addToEntity_Inr [OF i, of ob cb e d] ob(1) cb(1) t obtain cm' where
    a: "addToEntity ?cm (ByRef c) e d = (Inr (getEntityComponentsDirect cm' e), cm')" and
    o: "cm_owners cm' = AList.update c (ba_set ob e True) (cm_owners ?cm)" and
    ch: "cm_changed cm' = AList.update c (ba_set cb e True) (cm_changed ?cm)" and
    rg: "cm_registry cm' = cm_registry ?cm"
    by auto
  from update_refresh_initialized [OF st, of e "getEntityComponentsDirect cm' e" cm']
  obtain w' where
    u: "(let (a, am') = ArchetypeManager_update (w_archetypeManager w) e
                          (getEntityComponentsDirect cm' e);
             w1 = w\<lparr>w_componentManager := cm', w_archetypeManager := am'\<rparr>
         in if w_state w1 = Initialized then World_refresh w1 True else (None, w1)) = (None, w')"
    and s: "w_state w' = Initialized" and c': "w_componentManager w' = cm'"
    and em: "w_entityManager w' = w_entityManager w"
    and cl: "\<forall>k a x. map_of (am_registry (w_archetypeManager w')) k = Some a \<longrightarrow>
                \<not> ba_get (a_entered a) x \<and> \<not> ba_get (a_exited a) x"
    by blast
  have r: "addComponentToEntity w (ByRef c) e d = (None, w')"
    using a u by (simp add: addComponentToEntity_def getComponentByName_def)
  have "world_inv w'" using world_inv_add [OF inv, of "ByRef c" e d] r by simp
  moreover have "w_capacity w' = w_capacity w" using em by (simp add: w_capacity_def)
  moreover have "isRegistered (w_componentManager w') (ByRef c)"
    using reg rg c' by (simp add: isRegistered_def getInstance_def)
  moreover have "entityHas (w_componentManager w') (ByRef c) e"
    using c' o e ob(2) by (simp add: entityHas_ByRef update_conv' ba_get_set ba_wf_in_range)
  moreover have "changedBit (w_componentManager w') c e"
    using c' ch e cb(2) by (simp add: changedBit_def update_conv' ba_get_set ba_wf_in_range)
  ultimately show ?thesis using r s cl by blast
qed

lemma remove_initialized:
  assumes inv: "world_inv w" and st: "w_state w = Initialized"
    and reg: "isRegistered (w_componentManager w) (ByRef c)"
  shows "\<exists>w'. removeComponentFromEntity w (ByRef c) e = (None, w')
          \<and> world_inv w' \<and> w_state w' = Initialized \<and> w_capacity w' = w_capacity w
          \<and> isRegistered (w_componentManager w') (ByRef c)
          \<and> (\<forall>k a x. map_of (am_registry (w_archetypeManager w')) k = Some a \<longrightarrow>
                \<not> ba_get (a_entered a) x \<and> \<not> ba_get (a_exited a) x)"
proof -
  let ?cm = "w_componentManager w"
  let ?r = "removeFromEntity ?cm (ByRef c) e"
  from update_refresh_initialized [OF st, of e "fst ?r" "snd ?r"]
  obtain w' where
    u: "(let (a, am') = ArchetypeManager_update (w_archetypeManager w) e (fst ?r);
             w1 = w\<lparr>w_componentManager := snd ?r, w_archetypeManager := am'\<rparr>
         in if w_state w1 = Initialized then World_refresh w1 True else (None, w1)) = (None, w')"
    and s: "w_state w' = Initialized" and c': "w_componentManager w' = snd ?r"
    and em: "w_entityManager w' = w_entityManager w"
    and cl: "\<forall>k a x. map_of (am_registry (w_archetypeManager w')) k = Some a \<longrightarrow>
                \<not> ba_get (a_entered a) x \<and> \<not> ba_get (a_exited a) x"
    by blast
  have r: "removeComponentFromEntity w (ByRef c) e = (None, w')"
    using u by (simp add: removeComponentFromEntity_def getComponentByName_def split_beta)
  have "world_inv w'" using world_inv_remove [OF inv, of "ByRef c" e] r by simp
  moreover have "w_capacity w' = w_capacity w" using em by (simp add: w_capacity_def)
  moreover have "isRegistered (w_componentManager w') (ByRef c)"
    using reg c' by (simp add: isRegistered_def getInstance_def removeFromEntity_fields)
  ultimately show ?thesis using r s cl by blast
qed

text \<open>
  C2 (as amended). In a reachable, initialized world, for a registered component and an
  entity below the capacity, the sequence add, remove, add raises nothing and leaves the world
  initialized; afterwards the entity is a member of its archetype, its entered bit and its
  exited bit are not set (in its archetype or in any other), it owns the component, and its
  changed bit for the component is set. Each of the three calls ends with
  \<^verbatim>\<open>refresh(true)\<close>, which clears the entered and exited arrays of every archetype and
  keeps the changed arrays.
\<close>

theorem add_remove_add_initialized:
  assumes r: "reachable w" and st: "w_state w = Initialized"
    and reg: "isRegistered (w_componentManager w) (ByRef c)" and e: "e < w_capacity w"
  shows "\<exists>w1 w2 w3. addComponentToEntity w (ByRef c) e d = (None, w1)
      \<and> removeComponentFromEntity w1 (ByRef c) e = (None, w2)
      \<and> addComponentToEntity w2 (ByRef c) e d' = (None, w3)
      \<and> w_state w3 = Initialized
      \<and> entityBits w3 e = Some (True, False, False)
      \<and> (\<forall>k a. map_of (am_registry (w_archetypeManager w3)) k = Some a \<longrightarrow>
            \<not> ba_get (a_entered a) e \<and> \<not> ba_get (a_exited a) e)
      \<and> entityHas (w_componentManager w3) (ByRef c) e
      \<and> changedBit (w_componentManager w3) c e"
proof -
  from reachable_inv [OF r] have inv: "world_inv w" .
  from add_initialized [OF inv st reg e, of d] obtain w1 where
    1: "addComponentToEntity w (ByRef c) e d = (None, w1)" and
    inv1: "world_inv w1" and st1: "w_state w1 = Initialized" and
    cap1: "w_capacity w1 = w_capacity w" and
    reg1: "isRegistered (w_componentManager w1) (ByRef c)"
    by blast
  from remove_initialized [OF inv1 st1 reg1, of e] obtain w2 where
    2: "removeComponentFromEntity w1 (ByRef c) e = (None, w2)" and
    inv2: "world_inv w2" and st2: "w_state w2 = Initialized" and
    cap2: "w_capacity w2 = w_capacity w1" and
    reg2: "isRegistered (w_componentManager w2) (ByRef c)"
    by blast
  from e cap1 cap2 have e2: "e < w_capacity w2" by simp
  from add_initialized [OF inv2 st2 reg2 e2, of d'] obtain w3 where
    3: "addComponentToEntity w2 (ByRef c) e d' = (None, w3)" and
    inv3: "world_inv w3" and st3: "w_state w3 = Initialized" and
    cap3: "w_capacity w3 = w_capacity w2" and
    has: "entityHas (w_componentManager w3) (ByRef c) e" and
    chg: "changedBit (w_componentManager w3) c e" and
    cl: "\<forall>k a x. map_of (am_registry (w_archetypeManager w3)) k = Some a \<longrightarrow>
                \<not> ba_get (a_entered a) x \<and> \<not> ba_get (a_exited a) x"
    by blast
  from e2 cap3 have e3: "e < w_capacity w3" by simp
  from initialized_slot [OF inv3 st3 e3] obtain k a where
    k: "getEntityArchetype (w_archetypeManager w3) e = Some k" and
    a: "map_of (am_registry (w_archetypeManager w3)) k = Some a" and
    m: "ba_get (a_entities a) e"
    by blast
  from cl a have "\<not> ba_get (a_entered a) e" "\<not> ba_get (a_exited a) e" by blast+
  with k a m have bits: "entityBits w3 e = Some (True, False, False)"
    by (simp add: entityBits_def entityArchetype_def)
  from cl have cl': "\<forall>k a. map_of (am_registry (w_archetypeManager w3)) k = Some a \<longrightarrow>
            \<not> ba_get (a_entered a) e \<and> \<not> ba_get (a_exited a) e"
    by blast
  from 1 2 3 st3 bits cl' has chg show ?thesis by blast
qed

theorem add_remove_add_initialized_witness:
  "w_state (run ex_world [Create]) = Initialized
   \<and> isRegistered (w_componentManager (run ex_world [Create])) (ByRef ex_A)
   \<and> 0 < w_capacity (run ex_world [Create])
   \<and> (\<exists>w1 w2 w3. addComponentToEntity (run ex_world [Create]) (ByRef ex_A) 0 None = (None, w1)
      \<and> removeComponentFromEntity w1 (ByRef ex_A) 0 = (None, w2)
      \<and> addComponentToEntity w2 (ByRef ex_A) 0 None = (None, w3)
      \<and> w_state w3 = Initialized
      \<and> entityBits w3 0 = Some (True, False, False)
      \<and> (\<forall>k a. map_of (am_registry (w_archetypeManager w3)) k = Some a \<longrightarrow>
            \<not> ba_get (a_entered a) 0 \<and> \<not> ba_get (a_exited a) 0)
      \<and> entityHas (w_componentManager w3) (ByRef ex_A) 0
      \<and> changedBit (w_componentManager w3) ex_A 0)"
proof -
  have r: "reachable (run ex_world [Create])"
    by (rule reachable_run [OF reachable_ex_world])
  have h1: "w_state (run ex_world [Create]) = Initialized"
    by code_simp
  have h2: "isRegistered (w_componentManager (run ex_world [Create])) (ByRef ex_A)"
    by code_simp
  have h3: "0 < w_capacity (run ex_world [Create])"
    by code_simp
  from add_remove_add_initialized [OF r h1 h2 h3, of None None] h1 h2 h3
  show ?thesis by blast
qed

text \<open>
  C2 as stated fails: in the initialized example world, after entity 0 is created and the
  tag \<open>A\<close> is added, removed and added again, with no call of \<^verbatim>\<open>refresh\<close> by the user, the
  entered bit of entity 0 is not set.
\<close>

theorem add_remove_add_initialized_counterexample:
  "w_state ex_world = Initialized
   \<and> isActive (w_entityManager (run ex_world [Create])) 0
   \<and> fst (addComponentToEntity (run ex_world [Create]) (ByRef ex_A) 0 None) = None
   \<and> fst (removeComponentFromEntity
            (run ex_world [Create, AddComponent (ByRef ex_A) 0 None]) (ByRef ex_A) 0) = None
   \<and> fst (addComponentToEntity
            (run ex_world [Create, AddComponent (ByRef ex_A) 0 None, RemoveComponent (ByRef ex_A) 0])
            (ByRef ex_A) 0 None) = None
   \<and> map_option (\<lambda>a. ba_get (a_entered a) 0)
        (entityArchetype
           (run ex_world [Create, AddComponent (ByRef ex_A) 0 None, RemoveComponent (ByRef ex_A) 0,
              AddComponent (ByRef ex_A) 0 None]) 0) = Some False"
  by code_simp

section \<open>Invalidating query results\<close>

lemma getEntities_stale:
  assumes "lv < qc_globalVersion c"
  shows "QueryCache_getEntities c pv queryId compute lv
           = (let pv' = (case map_of (qc_entityCache c) queryId of
                           None \<Rightarrow> pv
                         | Some oldArray \<Rightarrow> (releaseEntityArray (fst pv) oldArray, snd pv))
              in (fst (compute pv'),
                  c\<lparr>qc_entityCache := AList.update queryId (fst (compute pv'))
                                         (AList.delete queryId (qc_entityCache c))\<rparr>,
                  snd (compute pv')))"
  using assms
  by (simp add: QueryCache_getEntities_def Let_def split_beta delete_conv')

lemma getEntities_cached:
  assumes "\<not> lv < qc_globalVersion c" and "map_of (qc_entityCache c) queryId = Some cached"
  shows "QueryCache_getEntities c pv queryId compute lv = (cached, c, pv)"
  using assms by (simp add: QueryCache_getEntities_def)

lemma invalidate_all_stale:
  assumes "version_inv qm"
  shows "lastVersion (QueryManager_invalidate qm None) queryId
           < qc_globalVersion (qm_cache (QueryManager_invalidate qm None))"
proof -
  from assms have "\<And>v. map_of (qm_lastQueryVersion qm) queryId = Some v
      \<Longrightarrow> v \<le> qc_globalVersion (qm_cache qm)"
    unfolding version_inv_def by blast
  then show ?thesis
    by (auto simp: lastVersion_def QueryManager_invalidate_def QueryCache_invalidate_def
        split: option.split intro: le_imp_less_Suc)
qed

lemma invalidate_query_frame:
  "qm_cache (QueryManager_invalidate qm (Some q)) = qm_cache qm"
  "map_of (qm_idsByQuery qm) q \<noteq> Some queryId \<Longrightarrow>
     lastVersion (QueryManager_invalidate qm (Some q)) queryId = lastVersion qm queryId"
  by (auto simp: QueryManager_invalidate_def lastVersion_def update_conv' split: option.split)

lemma invalidate_query_returns_cached:
  assumes "map_of (qm_idsByQuery qm) q = Some queryId"
    and "map_of (qc_entityCache (qm_cache qm)) queryId = Some cached"
  shows "QueryCache_getEntities (qm_cache (QueryManager_invalidate qm (Some q))) pv queryId compute
           (lastVersion (QueryManager_invalidate qm (Some q)) queryId)
         = (cached, qm_cache qm, pv)"
proof -
  let ?qm = "QueryManager_invalidate qm (Some q)"
  from assms(1) have "lastVersion ?qm queryId = qc_globalVersion (qm_cache qm)"
    by (simp add: QueryManager_invalidate_def lastVersion_def update_conv')
  then have "\<not> lastVersion ?qm queryId < qc_globalVersion (qm_cache ?qm)"
    by (simp add: invalidate_query_frame(1))
  from getEntities_cached [OF this, of queryId cached] assms(2) show ?thesis
    by (simp add: invalidate_query_frame(1))
qed



end
